theory Spec2Isabelle
  imports Complex_Main "HOL-Library.Option_ord" "HOL-Library.Char_ord"
    "HOL-Library.List_Lexorder" "HOL-Library.Log_Nat" "HOL-Library.Multiset"
begin

section \<open>Form values: Python's \<open>int\<close> on a string\<close>

text \<open>
  Form and query values are strings. \<open>int(s)\<close> skips surrounding white space, reads an
  optional sign and then decimal digits, where single underscores may stand between
  digits; anything else raises \<open>ValueError\<close> (the value \<open>None\<close> here). The interpreter
  also refuses a literal with more than \<open>max_str_digits\<close> digits when that limit is set
  (\<open>0\<close> switches it off). Strings are ASCII here: the digits and spaces of other scripts
  that Python accepts are not part of the model.
\<close>

definition is_space :: "char \<Rightarrow> bool" where
  "is_space c = (let n = (of_char c :: nat) in (9 \<le> n \<and> n \<le> 13) \<or> n = 32)"

definition is_digit :: "char \<Rightarrow> bool" where
  "is_digit c = (let n = (of_char c :: nat) in 48 \<le> n \<and> n \<le> 57)"

definition digit_val :: "char \<Rightarrow> nat" where
  "digit_val c = (of_char c :: nat) - 48"

fun digits_ok :: "string \<Rightarrow> bool" where
  "digits_ok [] = False"
| "digits_ok [c] = is_digit c"
| "digits_ok (c # d # cs) =
     (is_digit c \<and> (if d = CHR ''_'' then digits_ok cs else digits_ok (d # cs)))"

definition py_int :: "nat \<Rightarrow> string \<Rightarrow> int option" where
  "py_int max_str_digits s =
     (let t = dropWhile is_space s;
          neg = (t \<noteq> [] \<and> hd t = CHR ''-'');
          u = (if t \<noteq> [] \<and> (hd t = CHR ''-'' \<or> hd t = CHR ''+'') then tl t else t);
          body = takeWhile (\<lambda>c. is_digit c \<or> c = CHR ''_'') u;
          rest = dropWhile (\<lambda>c. is_digit c \<or> c = CHR ''_'') u;
          ds = filter is_digit body
      in if \<not> digits_ok body \<or> \<not> list_all is_space rest then None
         else if 0 < max_str_digits \<and> max_str_digits < length ds then None
         else Some ((if neg then - 1 else 1) *
                    int (foldl (\<lambda>a c. 10 * a + digit_val c) 0 ds)))"

section \<open>SQL \<open>LIKE\<close>, and the store's floating-point average\<close>

text \<open>
  \<open>title ILIKE pattern\<close>: \<open>%\<close> stands for any run of characters, \<open>_\<close> for any one
  character, every other character for itself without regard to (ASCII) case.
\<close>

definition lower :: "char \<Rightarrow> char" where
  "lower c = (let n = (of_char c :: nat) in if 65 \<le> n \<and> n \<le> 90 then char_of (n + 32) else c)"

fun ilike :: "string \<Rightarrow> string \<Rightarrow> bool" where
  "ilike [] t = (t = [])"
| "ilike (p # ps) [] = (p = CHR ''%'' \<and> ilike ps [])"
| "ilike (p # ps) (c # cs) =
     (if p = CHR ''%'' then ilike ps (c # cs) \<or> ilike (p # ps) cs
      else (p = CHR ''_'' \<or> lower p = lower c) \<and> ilike ps cs)"

text \<open>
  A double is modelled by the rational it denotes. \<open>to_double\<close> rounds a rational to
  the nearest number with a 53-bit significand, ties to even; the exponent range is not
  modelled (the averages below are far inside it). \<open>AVG\<close> is the correctly rounded
  quotient of the sum by the row count, both exactly representable for any table of
  fewer than \<open>2^53\<close> rows of ratings. \<open>round(x, 1)\<close> rounds the exact value of
  the double to one decimal place, ties to even, and returns the double nearest to that
  decimal.
\<close>

definition pow2 :: "int \<Rightarrow> rat" where
  "pow2 e = (if 0 \<le> e then 2 ^ nat e else 1 / 2 ^ nat (- e))"

definition round_half_even :: "rat \<Rightarrow> int" where
  "round_half_even x =
     (let f = \<lfloor>x\<rfloor>; d = x - of_int f
      in if d < 1 / 2 then f else if 1 / 2 < d then f + 1 else if even f then f else f + 1)"

definition ilog2 :: "rat \<Rightarrow> int" where
  "ilog2 x =
     (let d = bitlen (fst (quotient_of \<bar>x\<bar>)) - bitlen (snd (quotient_of \<bar>x\<bar>))
      in if pow2 d \<le> \<bar>x\<bar> then d else d - 1)"

definition to_double :: "rat \<Rightarrow> rat" where
  "to_double x =
     (if x = 0 then 0
      else (let u = pow2 (ilog2 x - 52) in of_int (round_half_even (x / u)) * u))"

definition sql_avg :: "int list \<Rightarrow> rat option" where
  "sql_avg xs =
     (if xs = [] then None
      else Some (to_double (of_int (sum_list xs) / of_nat (length xs))))"

definition py_round1 :: "rat \<Rightarrow> rat" where
  "py_round1 x = to_double (of_int (round_half_even (x * 10)) / 10)"

section \<open>The persistent store\<close>

text \<open>
  One record per model class, one list per table (in the store's scan order). A column
  that may be NULL is an option. The store's integers have 64 bits: the year of a movie
  form is checked against that range (\<open>fits_int64\<close>; the driver refuses a larger one
  with an OverflowError when the row is written). Path parameters, keys, table sizes
  and offsets are unbounded here. The stored credential is an ideal salted hash: it
  matches exactly the password it was made from.
\<close>

datatype pwhash = Hashed nat string

record user =
  u_id :: nat
  u_username :: string
  u_email :: string
  u_password_hash :: pwhash

record movie =
  m_id :: nat
  m_title :: string
  m_synopsis :: "string option"
  m_poster :: "string option"
  m_year :: "int option"
  m_genre :: "string option"
  m_duration :: "string option"

record watchlist_item =
  w_id :: nat
  w_user_id :: nat
  w_movie_id :: nat

record review =
  r_id :: nat
  r_text :: string
  r_rating :: int
  r_timestamp :: nat
  r_user_id :: nat
  r_movie_id :: nat

record store =
  user_tbl :: "user list"
  movie_tbl :: "movie list"
  watchlist_tbl :: "watchlist_item list"
  review_tbl :: "review list"

definition fits_int64 :: "int \<Rightarrow> bool" where
  "fits_int64 i = (- (2 ^ 63) \<le> i \<and> i < 2 ^ 63)"

definition empty_store :: store where
  "empty_store = \<lparr>user_tbl = [], movie_tbl = [], watchlist_tbl = [], review_tbl = []\<rparr>"

text \<open>
  The schema's constraints: primary keys, the unique columns of \<open>User\<close>, and the two
  \<open>UniqueConstraint\<close>s on (user_id, movie_id).
\<close>

definition schema_ok :: "store \<Rightarrow> bool" where
  "schema_ok s =
     (distinct (map u_id (user_tbl s)) \<and>
      distinct (map u_username (user_tbl s)) \<and>
      distinct (map u_email (user_tbl s)) \<and>
      distinct (map m_id (movie_tbl s)) \<and>
      distinct (map w_id (watchlist_tbl s)) \<and>
      distinct (map (\<lambda>w. (w_user_id w, w_movie_id w)) (watchlist_tbl s)) \<and>
      distinct (map r_id (review_tbl s)) \<and>
      distinct (map (\<lambda>r. (r_user_id r, r_movie_id r)) (review_tbl s)))"

text \<open>A new row's primary key: one more than the largest key of the table.\<close>

definition next_id :: "nat list \<Rightarrow> nat" where
  "next_id ids = Suc (fold max ids 0)"

text \<open>
  \<open>db.session.add(...)\<close> followed by \<open>db.session.commit()\<close>: the insert is refused
  (\<open>None\<close>, the store's IntegrityError) when it would break a unique constraint.
\<close>

definition add_user :: "store \<Rightarrow> string \<Rightarrow> string \<Rightarrow> pwhash \<Rightarrow> (store \<times> user) option" where
  "add_user s username email h =
     (if (\<exists>u \<in> set (user_tbl s). u_username u = username \<or> u_email u = email) then None
      else (let u = \<lparr>u_id = next_id (map u_id (user_tbl s)), u_username = username,
                      u_email = email, u_password_hash = h\<rparr>
            in Some (s\<lparr>user_tbl := user_tbl s @ [u]\<rparr>, u)))"

definition add_movie_row :: "store \<Rightarrow> string \<Rightarrow> string \<Rightarrow> string \<Rightarrow> int \<Rightarrow> string \<Rightarrow> string
    \<Rightarrow> store \<times> movie" where
  "add_movie_row s title genre poster year duration synopsis =
     (let m = \<lparr>m_id = next_id (map m_id (movie_tbl s)), m_title = title,
                m_synopsis = Some synopsis, m_poster = Some poster, m_year = Some year,
                m_genre = Some genre, m_duration = Some duration\<rparr>
      in (s\<lparr>movie_tbl := movie_tbl s @ [m]\<rparr>, m))"

definition add_watchlist_item :: "store \<Rightarrow> nat \<Rightarrow> nat \<Rightarrow> store option" where
  "add_watchlist_item s uid mid =
     (if (\<exists>w \<in> set (watchlist_tbl s). w_user_id w = uid \<and> w_movie_id w = mid) then None
      else Some (s\<lparr>watchlist_tbl := watchlist_tbl s @
             [\<lparr>w_id = next_id (map w_id (watchlist_tbl s)), w_user_id = uid,
               w_movie_id = mid\<rparr>]\<rparr>))"

definition add_review :: "store \<Rightarrow> nat \<Rightarrow> nat \<Rightarrow> nat \<Rightarrow> int \<Rightarrow> string \<Rightarrow> store option" where
  "add_review s now uid mid rating txt =
     (if (\<exists>r \<in> set (review_tbl s). r_user_id r = uid \<and> r_movie_id r = mid) then None
      else Some (s\<lparr>review_tbl := review_tbl s @
             [\<lparr>r_id = next_id (map r_id (review_tbl s)), r_text = txt, r_rating = rating,
               r_timestamp = now, r_user_id = uid, r_movie_id = mid\<rparr>]\<rparr>))"

definition get_movie :: "store \<Rightarrow> nat \<Rightarrow> movie option" where
  "get_movie s mid = find (\<lambda>m. m_id m = mid) (movie_tbl s)"

definition load_user :: "store \<Rightarrow> nat \<Rightarrow> user option" where
  "load_user s uid = find (\<lambda>u. u_id u = uid) (user_tbl s)"

text \<open>\<open>order_by(col.desc())\<close>: descending, rows with equal keys in scan order, NULL last.\<close>

definition order_by_desc :: "('a \<Rightarrow> 'k::linorder) \<Rightarrow> 'a list \<Rightarrow> 'a list" where
  "order_by_desc k xs = rev (sort_key k (rev xs))"

section \<open>Sessions and responses\<close>

text \<open>
  The session cookie holds the id of the logged-in user, if any; \<open>current_user\<close> is the
  row the user loader finds for it. A response is the flashed messages (text and
  category) and the page or redirect; an unhandled exception is the left summand.
\<close>

type_synonym session = "nat option"

type_synonym flash = "string \<times> string"

datatype url = To_index | To_movie_detail nat | To_login | To_register | To_url string

datatype avg = NA | Avg rat

datatype page =
    Redirect url
  | Index_page "string list"
  | Movie_cards "movie list"
  | Movie_detail_page movie bool avg "review list"
  | Watchlist_page "movie list"
  | Login_page
  | Register_page
  | Add_movie_page "movie option"

record outcome =
  o_store :: store
  o_session :: session
  o_flashes :: "flash list"
  o_page :: page

datatype exn = ValueError | BadRequestKeyError

definition out :: "store \<Rightarrow> session \<Rightarrow> flash list \<Rightarrow> page \<Rightarrow> outcome" where
  "out s c fl p = \<lparr>o_store = s, o_session = c, o_flashes = fl, o_page = p\<rparr>"

definition current_user :: "store \<Rightarrow> session \<Rightarrow> user option" where
  "current_user s c = (case c of None \<Rightarrow> None | Some uid \<Rightarrow> load_user s uid)"

text \<open>
  What \<open>@login_required\<close> answers to an anonymous caller: the login manager's message,
  in the category the application configures (\<open>login_message_category = "error"\<close>), and
  a redirect to \<open>login_view\<close>.
\<close>

definition unauthorized :: "store \<Rightarrow> session \<Rightarrow> outcome" where
  "unauthorized s c =
     out s c [(''Please log in to access this page.'', ''error'')] (Redirect To_login)"

definition dq :: char where
  "dq = CHR 0x22"

section \<open>Routes\<close>

definition submit_review :: "nat \<Rightarrow> nat \<Rightarrow> store \<Rightarrow> session \<Rightarrow> nat \<Rightarrow> string option
    \<Rightarrow> string option \<Rightarrow> outcome" where
  "submit_review max_str_digits now s c movie_id rating txt =
     (case current_user s c of
        None \<Rightarrow> unauthorized s c
      | Some cu \<Rightarrow>
         (case get_movie s movie_id of
            None \<Rightarrow> out s c [(''Movie not found.'', ''error'')] (Redirect To_index)
          | Some movie \<Rightarrow>
             (case (rating, txt) of
                (Some (rc # rcs), Some (tc # tcs)) \<Rightarrow>
                  (case py_int max_str_digits (rc # rcs) of
                     None \<Rightarrow>
                       out s c [(''Invalid rating submitted.'', ''error'')]
                         (Redirect (To_movie_detail movie_id))
                   | Some r \<Rightarrow>
                       if \<not> (1 \<le> r \<and> r \<le> 5) then
                         out s c [(''Rating must be between 1 and 5.'', ''error'')]
                           (Redirect (To_movie_detail movie_id))
                       else
                         (case find (\<lambda>x. r_user_id x = u_id cu \<and> r_movie_id x = movie_id)
                                 (review_tbl s) of
                            Some existing_review \<Rightarrow>
                              out (s\<lparr>review_tbl :=
                                     map (\<lambda>x. if r_id x = r_id existing_review
                                               then x\<lparr>r_rating := r, r_text := tc # tcs,
                                                      r_timestamp := now\<rparr>
                                               else x) (review_tbl s)\<rparr>)
                                c [(''Your review has been updated!'', ''success'')]
                                (Redirect (To_movie_detail movie_id))
                          | None \<Rightarrow>
                              (case add_review s now (u_id cu) movie_id r (tc # tcs) of
                                 Some s' \<Rightarrow>
                                   out s' c [(''Your review has been posted!'', ''success'')]
                                     (Redirect (To_movie_detail movie_id))
                               | None \<Rightarrow>
                                   out s c [(''Your review has been posted!'', ''success''),
                                            (''An error occurred while posting the review: You may have already reviewed this movie.'', ''error'')]
                                     (Redirect (To_movie_detail movie_id)))))
              | _ \<Rightarrow>
                  out s c [(''Rating and review text are required.'', ''error'')]
                    (Redirect (To_movie_detail movie_id)))))"

definition index :: "store \<Rightarrow> session \<Rightarrow> outcome" where
  "index s c =
     out s c []
       (Index_page
          (concat (map (\<lambda>g. case g of Some (x # xs) \<Rightarrow> [x # xs] | _ \<Rightarrow> [])
                       (sort (remdups (map m_genre (movie_tbl s)))))))"

text \<open>
  The query of \<open>api_movies\<close> for a page number already read. A negative offset skips
  nothing, as in the default store. The offset is not bounded here: a page whose offset
  is beyond the 64-bit range, which the store's driver refuses, lies beyond every table
  the store can hold, and is an empty page in this model.
\<close>

definition movies_page :: "store \<Rightarrow> string \<Rightarrow> string \<Rightarrow> int \<Rightarrow> movie list" where
  "movies_page s q genre page =
     (let per_page = 12;
          query = movie_tbl s;
          query = (if q \<noteq> [] then filter (\<lambda>m. ilike (''%'' @ q @ ''%'') (m_title m)) query
                   else query);
          query = (if genre \<noteq> [] then filter (\<lambda>m. m_genre m = Some genre) query else query)
      in take per_page (drop (nat ((page - 1) * int per_page)) (order_by_desc m_year query)))"

definition api_movies :: "nat \<Rightarrow> store \<Rightarrow> session \<Rightarrow> string option \<Rightarrow> string option
    \<Rightarrow> string option \<Rightarrow> exn + outcome" where
  "api_movies max_str_digits s c q genre page =
     (case (case page of None \<Rightarrow> Some 1 | Some p \<Rightarrow> py_int max_str_digits p) of
        None \<Rightarrow> Inl ValueError
      | Some n \<Rightarrow>
          Inr (out s c []
                 (Movie_cards
                    (movies_page s (case q of None \<Rightarrow> [] | Some x \<Rightarrow> x)
                       (case genre of None \<Rightarrow> [] | Some g \<Rightarrow> g) n))))"

text \<open>The movies a response shows as cards (none for any other response).\<close>

definition cards :: "exn + outcome \<Rightarrow> movie list" where
  "cards res = (case res of
       Inl e \<Rightarrow> []
     | Inr oc \<Rightarrow> (case o_page oc of Movie_cards ms \<Rightarrow> ms | _ \<Rightarrow> []))"

definition on_watchlist :: "store \<Rightarrow> nat \<Rightarrow> nat \<Rightarrow> bool" where
  "on_watchlist s uid mid =
     (find (\<lambda>w. w_user_id w = uid \<and> w_movie_id w = mid) (watchlist_tbl s) \<noteq> None)"

text \<open>
  The reviews of the detail page come from a backward scan of the timestamp index:
  newest first, and reviews of the same second with the larger key first.
\<close>

definition movie_detail :: "store \<Rightarrow> session \<Rightarrow> nat \<Rightarrow> outcome" where
  "movie_detail s c movie_id =
     (case get_movie s movie_id of
        None \<Rightarrow> out s c [(''Movie not found.'', ''error'')] (Redirect To_index)
      | Some movie \<Rightarrow>
          (let avg_rating =
                 (case sql_avg (map r_rating
                         (filter (\<lambda>r. r_movie_id r = movie_id) (review_tbl s))) of
                    None \<Rightarrow> NA
                  | Some a \<Rightarrow> if a = 0 then NA else Avg (py_round1 a));
               reviews = order_by_desc r_timestamp
                           (order_by_desc r_id
                              (filter (\<lambda>r. r_movie_id r = movie_id) (review_tbl s)));
               is_on_watchlist =
                 (case current_user s c of
                    None \<Rightarrow> False
                  | Some cu \<Rightarrow> on_watchlist s (u_id cu) movie_id)
           in out s c [] (Movie_detail_page movie is_on_watchlist avg_rating reviews)))"

definition or_url :: "string option \<Rightarrow> url \<Rightarrow> url" where
  "or_url target dflt = (case target of Some (x # xs) \<Rightarrow> To_url (x # xs) | _ \<Rightarrow> dflt)"

definition toggle_watchlist :: "store \<Rightarrow> session \<Rightarrow> nat \<Rightarrow> string option \<Rightarrow> outcome" where
  "toggle_watchlist s c movie_id referrer =
     (case current_user s c of
        None \<Rightarrow> unauthorized s c
      | Some cu \<Rightarrow>
         (case get_movie s movie_id of
            None \<Rightarrow> out s c [(''Movie not found.'', ''error'')] (Redirect To_index)
          | Some movie \<Rightarrow>
             (case find (\<lambda>w. w_user_id w = u_id cu \<and> w_movie_id w = movie_id)
                     (watchlist_tbl s) of
                Some watchlist_item \<Rightarrow>
                  out (s\<lparr>watchlist_tbl :=
                         filter (\<lambda>w. w_id w \<noteq> w_id watchlist_item) (watchlist_tbl s)\<rparr>)
                    c [(dq # m_title movie @ dq # '' removed from your watchlist.'', ''info'')]
                    (Redirect (or_url referrer (To_movie_detail movie_id)))
              | None \<Rightarrow>
                  (case add_watchlist_item s (u_id cu) movie_id of
                     Some s' \<Rightarrow>
                       out s' c
                         [(dq # m_title movie @ dq # '' added to your watchlist!'', ''success'')]
                         (Redirect (or_url referrer (To_movie_detail movie_id)))
                   | None \<Rightarrow>
                       out s c
                         [(dq # m_title movie @ dq # '' added to your watchlist!'', ''success''),
                          (''An error occurred while updating the watchlist.'', ''error'')]
                         (Redirect (or_url referrer (To_movie_detail movie_id)))))))"

definition watchlist :: "store \<Rightarrow> session \<Rightarrow> outcome" where
  "watchlist s c =
     (case current_user s c of
        None \<Rightarrow> unauthorized s c
      | Some cu \<Rightarrow>
          out s c []
            (Watchlist_page
               (concat (map (\<lambda>item. case get_movie s (w_movie_id item) of
                                        None \<Rightarrow> [] | Some m \<Rightarrow> [m])
                          (order_by_desc w_id
                             (filter (\<lambda>w. w_user_id w = u_id cu) (watchlist_tbl s)))))))"

datatype http_method = GET | POST

definition check_password :: "user \<Rightarrow> string \<Rightarrow> bool" where
  "check_password u password =
     (case u_password_hash u of Hashed salt p \<Rightarrow> p = password)"

text \<open>
  The username-or-email query of \<open>login\<close> is answered from the two unique indexes,
  the username's first: \<open>.first()\<close> is the row whose username is the identity, if
  there is one, and else the row whose email is.
\<close>

definition login :: "store \<Rightarrow> session \<Rightarrow> http_method \<Rightarrow> string option \<Rightarrow> string option
    \<Rightarrow> string option \<Rightarrow> exn + outcome" where
  "login s c meth identity password next_page =
     (if current_user s c \<noteq> None then Inr (out s c [] (Redirect To_index))
      else if meth = POST then
        (case (identity, password) of
           (Some ident, Some pw) \<Rightarrow>
             (case (case find (\<lambda>u. u_username u = ident) (user_tbl s) of
                      Some u \<Rightarrow> Some u
                    | None \<Rightarrow> find (\<lambda>u. u_email u = ident) (user_tbl s)) of
                None \<Rightarrow>
                  Inr (out s c [(''Invalid username/email or password.'', ''error'')] Login_page)
              | Some u \<Rightarrow>
                  if check_password u pw then
                    Inr (out s (Some (u_id u))
                           [(''Welcome back, '' @ u_username u @ ''!'', ''success'')]
                           (Redirect (or_url next_page To_index)))
                  else
                    Inr (out s c [(''Invalid username/email or password.'', ''error'')]
                           Login_page))
         | _ \<Rightarrow> Inl BadRequestKeyError)
      else Inr (out s c [] Login_page))"

text \<open>
  \<open>salt\<close> is the randomness of \<open>generate_password_hash\<close>. The text of an exception
  that the handler flashes is the exception class's name here.
\<close>

definition register :: "nat \<Rightarrow> store \<Rightarrow> session \<Rightarrow> http_method \<Rightarrow> string option \<Rightarrow> string option
    \<Rightarrow> string option \<Rightarrow> exn + outcome" where
  "register salt s c meth username email password =
     (if current_user s c \<noteq> None then Inr (out s c [] (Redirect To_index))
      else if meth = POST then
        (case (username, email, password) of
           (Some un, Some em, Some pw) \<Rightarrow>
             if find (\<lambda>u. u_username u = un \<or> u_email u = em) (user_tbl s) \<noteq> None then
               Inr (out s c
                      [(''Account with this username or email already exists.'', ''error'')]
                      (Redirect To_register))
             else
               (case add_user s un em (Hashed salt pw) of
                  Some (s', u) \<Rightarrow>
                    Inr (out s' (Some (u_id u))
                           [(''Account created successfully. Welcome, '' @ u_username u @ ''!'',
                             ''success'')]
                           (Redirect To_index))
                | None \<Rightarrow>
                    Inr (out s c
                           [(''An error occurred during registration: IntegrityError'',
                             ''error'')]
                           Register_page))
         | _ \<Rightarrow> Inl BadRequestKeyError)
      else Inr (out s c [] Register_page))"

definition logout :: "store \<Rightarrow> session \<Rightarrow> outcome" where
  "logout s c =
     (case current_user s c of
        None \<Rightarrow> unauthorized s c
      | Some cu \<Rightarrow>
          out s None [(''You have been logged out.'', ''success'')] (Redirect To_index))"

record movie_form =
  f_title :: "string option"
  f_genre :: "string option"
  f_poster :: "string option"
  f_year :: "string option"
  f_duration :: "string option"
  f_synopsis :: "string option"

definition add_movie :: "nat \<Rightarrow> store \<Rightarrow> session \<Rightarrow> http_method \<Rightarrow> movie_form \<Rightarrow> outcome" where
  "add_movie max_str_digits s c meth form =
     (case current_user s c of
        None \<Rightarrow> unauthorized s c
      | Some cu \<Rightarrow>
          if u_username cu \<noteq> ''admin'' then
            out s c [(''Access denied. Only the admin can add movies.'', ''error'')]
              (Redirect To_index)
          else if meth = POST then
            (case (f_title form, f_genre form, f_poster form, f_year form) of
               (Some title, Some genre, Some poster, Some ys) \<Rightarrow>
                 (case py_int max_str_digits ys of
                    None \<Rightarrow>
                      out s c
                        [(''Invalid input for Year. Please enter a valid number.'', ''error'')]
                        (Add_movie_page None)
                  | Some year \<Rightarrow>
                      (case (f_duration form, f_synopsis form) of
                         (Some duration, Some synopsis) \<Rightarrow>
                           if fits_int64 year then
                             (case add_movie_row s title genre poster year duration synopsis of
                                (s', m) \<Rightarrow>
                                  out s' c
                                    [(''Movie '' @ dq # title @ dq # '' added successfully!'',
                                      ''success'')]
                                    (Redirect (To_movie_detail (m_id m))))
                           else
                             out s c
                               [(''An error occurred while adding the movie: OverflowError'',
                                 ''error'')]
                               (Add_movie_page None)
                       | _ \<Rightarrow>
                           out s c
                             [(''An error occurred while adding the movie: BadRequestKeyError'',
                               ''error'')]
                             (Add_movie_page None)))
             | _ \<Rightarrow>
                 out s c
                   [(''An error occurred while adding the movie: BadRequestKeyError'',
                     ''error'')]
                   (Add_movie_page None))
          else out s c [] (Add_movie_page None))"

definition edit_movie :: "nat \<Rightarrow> store \<Rightarrow> session \<Rightarrow> http_method \<Rightarrow> nat \<Rightarrow> movie_form \<Rightarrow> outcome" where
  "edit_movie max_str_digits s c meth movie_id form =
     (case current_user s c of
        None \<Rightarrow> unauthorized s c
      | Some cu \<Rightarrow>
          if u_username cu \<noteq> ''admin'' then
            out s c [(''Access denied. Only the admin can edit movies.'', ''error'')]
              (Redirect (To_movie_detail movie_id))
          else
            (case get_movie s movie_id of
               None \<Rightarrow> out s c [(''Movie not found.'', ''error'')] (Redirect To_index)
             | Some movie \<Rightarrow>
                 if meth = POST then
                   (case (f_title form, f_genre form, f_poster form, f_year form) of
                      (Some title, Some genre, Some poster, Some ys) \<Rightarrow>
                        (case py_int max_str_digits ys of
                           None \<Rightarrow>
                             out s c
                               [(''Invalid input for Year. Please enter a valid number.'',
                                 ''error'')]
                               (Add_movie_page (Some movie))
                         | Some year \<Rightarrow>
                             (case (f_duration form, f_synopsis form) of
                                (Some duration, Some synopsis) \<Rightarrow>
                                  if \<not> fits_int64 year then
                                    out s c
                                      [(''An error occurred while updating the movie: OverflowError'',
                                        ''error'')]
                                      (Add_movie_page (Some movie))
                                  else
                                  out (s\<lparr>movie_tbl :=
                                         map (\<lambda>m. if m_id m = m_id movie
                                                   then m\<lparr>m_title := title, m_genre := Some genre,
                                                          m_poster := Some poster,
                                                          m_year := Some year,
                                                          m_duration := Some duration,
                                                          m_synopsis := Some synopsis\<rparr>
                                                   else m) (movie_tbl s)\<rparr>)
                                    c [(''Movie '' @ dq # title @ dq # '' updated successfully!'',
                                        ''success'')]
                                    (Redirect (To_movie_detail (m_id movie)))
                              | _ \<Rightarrow>
                                  out s c
                                    [(''An error occurred while updating the movie: BadRequestKeyError'',
                                      ''error'')]
                                    (Add_movie_page (Some movie))))
                    | _ \<Rightarrow>
                        out s c
                          [(''An error occurred while updating the movie: BadRequestKeyError'',
                            ''error'')]
                          (Add_movie_page (Some movie)))
                 else out s c [] (Add_movie_page (Some movie))))"

section \<open>Seeding\<close>

definition sample :: "(string \<times> string \<times> string \<times> int \<times> string \<times> string) list" where
  "sample =
     [(''Interstellar'', ''Sci-Fi'',
       ''https://cdna.artstation.com/p/assets/images/images/063/201/604/large/ian-papa-inter.jpg?1684955718'',
       2014, ''2h 49m'',
       ''A team of explorers travels through a wormhole in space in an attempt to ensure humanity's survival.''),
      (''Dune: Part One'', ''Sci-Fi'',
       ''https://th.bing.com/th/id/OIP.H8940g-GeXdBWSXjUjh2swHaK8?w=205&h=303&c=7&r=0&o=7&cb=ucfimg2&dpr=1.3&pid=1.7&rm=3&ucfimg=1'',
       2021, ''2h 35m'',
       ''Paul Atreides leads nomadic tribes in a battle to control the desert planet Arrakis and its valuable spice.''),
      (''Harry Potter and the Sorcerer's Stone'', ''Fantasy'',
       ''https://wallpapers.com/images/hd/harry-potter-all-characters-lvbwsigjt3yykg3n.jpg'',
       2001, ''2h 32m'',
       ''An orphaned boy discovers he is a wizard and attends a magical school where he faces his destiny.''),
      (''3 Idiots'', ''Comedy'',
       ''https://m.media-amazon.com/images/M/MV5BNTkyOGVjMGEtNmQzZi00NzFlLTlhOWQtODYyMDc2ZGJmYzFhXkEyXkFqcGdeQXVyNjU0OTQ0OTY@._V1_.jpg'',
       2009, ''2h 50m'',
       ''Three engineering students navigate life, friendship, and education with a brilliant yet unconventional classmate.''),
      (''Life of Pi'', ''Adventure'',
       ''https://tse1.mm.bing.net/th/id/OIP.WRQCZc_zReaLUXjSFa0z9QHaF7?cb=ucfimg2ucfimg=1&rs=1&pid=ImgDetMain&o=7&rm=3'',
       2012, ''2h 7m'',
       ''After a shipwreck, a young man survives on a lifeboat with a Bengal tiger, discovering spirituality and survival.''),
      (''Rio'', ''Animation'',
       ''https://assets.puzzlefactory.com/puzzle/482/150/original.jpg'',
       2011, ''1h 36m'',
       ''A domesticated blue macaw travels to Rio de Janeiro, where he learns to fly and embrace adventure.''),
      (''Inception'', ''Sci-Fi'',
       ''https://c8.alamy.com/comp/DBW2R3/inception-2010-leonardo-dicaprio-christopher-nolan-dir-016-moviestore-DBW2R3.jpg'',
       2010, ''2h 28m'',
       ''A thief who steals corporate secrets through dream-sharing technology is tasked with planting an idea into a CEO's mind.''),
      (''Avatar'', ''Fantasy'',
       ''https://mlpnk72yciwc.i.optimole.com/cqhiHLc.IIZS~2ef73/w:auto/h:auto/q:75/https://bleedingcool.com/wp-content/uploads/2022/11/AVATAR_THE_WAY_OF_WATER_1SHT_DIGITAL_LOAK_sRGB_V1.jpg'',
       2009, ''2h 42m'',
       ''A paraplegic Marine is sent to the moon Pandora, where he becomes torn between following orders and protecting its world.''),
      (''The Dark Knight'', ''Action'',
       ''https://v3img.voot.com/v3Storage/assets/the_dark_knight_1920x1080-1685950193383.jpg'',
       2008, ''2h 32m'',
       ''Batman faces his greatest psychological and physical test yet as he battles the Joker's chaos in Gotham.''),
      (''Frozen'', ''Animation'',
       ''https://images.hdqwalls.com/wallpapers/hd-frozen.jpg'',
       2013, ''1h 42m'',
       ''When Queen Elsa's icy powers trap her kingdom in eternal winter, her sister Anna sets out to save her.'')]"

text \<open>
  \<open>seed_data\<close> drops and recreates the tables, then fills them; the one commit is
  inside the branch that seeds the movies. An insert that the store refused would end
  the start-up with the tables as they were.
\<close>

definition seed_data :: "nat \<Rightarrow> nat \<Rightarrow> store" where
  "seed_data salt now =
     (let s = empty_store;
          s = (if find (\<lambda>u. u_username u = ''admin'') (user_tbl s) = None
               then (case add_user s ''admin'' ''admin@flix.com'' (Hashed salt ''password123'') of
                       Some (s', u) \<Rightarrow> s' | None \<Rightarrow> s)
               else s)
      in if length (movie_tbl s) < 10 then
           (let s = fold (\<lambda>(title, genre, poster, year, duration, synopsis) s.
                             if find (\<lambda>m. m_title m = title) (movie_tbl s) = None
                             then fst (add_movie_row s title genre poster year duration synopsis)
                             else s) sample s;
                admin_user = find (\<lambda>u. u_username u = ''admin'') (user_tbl s);
                dune = find (\<lambda>m. m_title m = ''Dune: Part One'') (movie_tbl s)
            in (case (admin_user, dune) of
                  (Some a, Some d) \<Rightarrow>
                    if review_tbl s = [] then
                      (case add_review s now (u_id a) (m_id d) 5
                              ''A visually stunning and faithful adaptation. The sound design is incredible.'' of
                         Some s' \<Rightarrow> s' | None \<Rightarrow> s)
                    else s
                | _ \<Rightarrow> s))
         else empty_store)"

section \<open>Requests in sequence\<close>

text \<open>
  A request names its route and carries what the route reads: the path parameter, the
  form or query fields (absent fields are \<open>None\<close>), the referrer, and what the
  environment supplies (the clock, the salt). Each request comes with the session
  cookie its client presents. A request that ends in an unhandled exception leaves the
  store as it was.
\<close>

datatype request =
    Get_index
  | Get_api_movies "string option" "string option" "string option"
  | Get_movie_detail nat
  | Post_toggle_watchlist nat "string option"
  | Get_watchlist
  | Post_submit_review nat nat "string option" "string option"
  | Req_login http_method "string option" "string option" "string option"
  | Req_register nat http_method "string option" "string option" "string option"
  | Get_logout
  | Req_add_movie http_method movie_form
  | Req_edit_movie http_method nat movie_form

fun handle :: "nat \<Rightarrow> store \<Rightarrow> session \<Rightarrow> request \<Rightarrow> exn + outcome" where
  "handle dl s c Get_index = Inr (index s c)"
| "handle dl s c (Get_api_movies q genre page) = api_movies dl s c q genre page"
| "handle dl s c (Get_movie_detail movie_id) = Inr (movie_detail s c movie_id)"
| "handle dl s c (Post_toggle_watchlist movie_id referrer) =
     Inr (toggle_watchlist s c movie_id referrer)"
| "handle dl s c Get_watchlist = Inr (watchlist s c)"
| "handle dl s c (Post_submit_review now movie_id rating txt) =
     Inr (submit_review dl now s c movie_id rating txt)"
| "handle dl s c (Req_login meth identity password next_page) =
     login s c meth identity password next_page"
| "handle dl s c (Req_register salt meth username email password) =
     register salt s c meth username email password"
| "handle dl s c Get_logout = Inr (logout s c)"
| "handle dl s c (Req_add_movie meth form) = Inr (add_movie dl s c meth form)"
| "handle dl s c (Req_edit_movie meth movie_id form) =
     Inr (edit_movie dl s c meth movie_id form)"

definition store_after :: "store \<Rightarrow> exn + outcome \<Rightarrow> store" where
  "store_after s res = (case res of Inl e \<Rightarrow> s | Inr oc \<Rightarrow> o_store oc)"

fun run :: "nat \<Rightarrow> store \<Rightarrow> (session \<times> request) list \<Rightarrow> store" where
  "run dl s [] = s"
| "run dl s ((c, rq) # rest) = run dl (store_after s (handle dl s c rq)) rest"

text \<open>The column comment of \<open>Review.rating\<close> (1 to 5) and the non-empty text.\<close>

definition reviews_ok :: "store \<Rightarrow> bool" where
  "reviews_ok s = (\<forall>r \<in> set (review_tbl s). 1 \<le> r_rating r \<and> r_rating r \<le> 5 \<and> r_text r \<noteq> [])"

section \<open>Example stores\<close>

definition demo_movie :: movie where
  "demo_movie =
     \<lparr>m_id = 1, m_title = ''Dune: Part One'', m_synopsis = None, m_poster = None,
      m_year = Some 2021, m_genre = Some ''Sci-Fi'', m_duration = Some ''2h 35m''\<rparr>"

definition demo_bob :: user where
  "demo_bob =
     \<lparr>u_id = 2, u_username = ''bob'', u_email = ''bob@example.org'',
      u_password_hash = Hashed 1 ''hunter2''\<rparr>"

definition demo_store :: store where
  "demo_store =
     \<lparr>user_tbl =
        [\<lparr>u_id = 1, u_username = ''admin'', u_email = ''admin@flix.com'',
          u_password_hash = Hashed 0 ''password123''\<rparr>,
         demo_bob],
      movie_tbl = [demo_movie], watchlist_tbl = [], review_tbl = []\<rparr>"

definition demo_form :: movie_form where
  "demo_form =
     \<lparr>f_title = Some ''Rio'', f_genre = Some ''Animation'', f_poster = Some [],
      f_year = Some ''2011'', f_duration = Some ''1h 36m'', f_synopsis = Some []\<rparr>"

text \<open>The example store after its admin has reviewed the movie with rating 5.\<close>

definition demo_reviewed :: store where
  "demo_reviewed =
     o_store (submit_review 4300 10 demo_store (Some 1) 1 (Some ''5'') (Some ''Stunning''))"

section \<open>Properties\<close>

subsection \<open>Reading integers\<close>

lemma py_int_Nil: "py_int dl [] = None"
  by (simp add: py_int_def)

lemma py_int_abc: "py_int dl ''abc'' = None"
  by (simp add: py_int_def is_space_def is_digit_def)

subsection \<open>Lists\<close>

lemma find_Some_ex: "x \<in> set xs \<Longrightarrow> P x \<Longrightarrow> find P xs \<noteq> None"
  by (auto simp: find_None_iff)

lemma filter_find_None: "find P xs = None \<Longrightarrow> filter P xs = []"
  by (induction xs) (auto split: if_splits)

lemma filter_find_distinct:
  "distinct (map k xs) \<Longrightarrow> find (\<lambda>x. k x = a) xs = Some e \<Longrightarrow> filter (\<lambda>x. k x = a) xs = [e]"
proof (induction xs)
  case Nil
  then show ?case by simp
next
  case (Cons x xs)
  show ?case
  proof (cases "k x = a")
    case True
    with Cons.prems have "e = x" by simp
    moreover from True Cons.prems have "filter (\<lambda>y. k y = a) xs = []"
      by (auto simp: filter_empty_conv image_iff)
    ultimately show ?thesis using True by simp
  next
    case False
    with Cons show ?thesis by simp
  qed
qed

lemma filter_map_keep:
  "(\<And>x. P (f x) = P x) \<Longrightarrow> filter P (map f xs) = map f (filter P xs)"
  by (induction xs) auto

subsection \<open>The example store\<close>

lemma current_user_demo_None: "current_user demo_store None = None"
  by (simp add: current_user_def)

lemma current_user_demo_bob: "current_user demo_store (Some 2) = Some demo_bob"
  by (simp add: current_user_def load_user_def demo_store_def demo_bob_def)

lemma get_movie_demo: "get_movie demo_store 1 = Some demo_movie"
  by (simp add: get_movie_def demo_store_def demo_movie_def)

subsection \<open>The movie search\<close>

text \<open>
  C10: there is a search request, one whose \<open>page\<close> parameter is the non-numeric
  string \<open>abc\<close>, that ends in an unhandled \<open>ValueError\<close> from reading the integer:
  neither a page of results nor a flashed error.
\<close>

theorem api_movies_bad_page:
  "api_movies dl s c q genre (Some ''abc'') = Inl ValueError"
  by (simp add: api_movies_def py_int_abc)

subsection \<open>Accounts\<close>

text \<open>
  C4, as the code has it: for any existing user, a registration that reuses that
  user's email or that user's username (whatever the other field is) creates no user
  row. From a caller with no logged-in user it is answered with the conflict message
  and a redirect to the registration page. From a caller who is logged in, as the
  client of a registration that has just succeeded is, it is answered before any
  field is read: a redirect to the index and no message.
\<close>

theorem register_reused_identity:
  assumes "u \<in> set (user_tbl s)"
    and "email = u_email u \<or> username = u_username u"
  shows "(current_user s c = None \<longrightarrow>
            register salt s c POST (Some username) (Some email) (Some password) =
              Inr (out s c
                     [(''Account with this username or email already exists.'', ''error'')]
                     (Redirect To_register)))
         \<and> (current_user s c \<noteq> None \<longrightarrow>
            register salt s c POST (Some username) (Some email) (Some password) =
              Inr (out s c [] (Redirect To_index)))
         \<and> user_tbl (store_after s
              (register salt s c POST (Some username) (Some email) (Some password))) =
            user_tbl s"
proof -
  let ?r = "register salt s c POST (Some username) (Some email) (Some password)"
  have f: "find (\<lambda>x. u_username x = username \<or> u_email x = email) (user_tbl s) \<noteq> None"
    using assms by (intro find_Some_ex [of u]) auto
  have a: "?r = Inr (out s c
                     [(''Account with this username or email already exists.'', ''error'')]
                     (Redirect To_register))" if "current_user s c = None"
    using that f by (simp add: register_def)
  have b: "?r = Inr (out s c [] (Redirect To_index))" if "current_user s c \<noteq> None"
    using that by (simp add: register_def)
  have "user_tbl (store_after s ?r) = user_tbl s"
  proof (cases "current_user s c = None")
    case True
    show ?thesis unfolding a [OF True] by (simp add: store_after_def out_def)
  next
    case False
    show ?thesis unfolding b [OF False] by (simp add: store_after_def out_def)
  qed
  then show ?thesis using a b by blast
qed

theorem register_reused_identity_witness:
  "register 5 demo_store None POST (Some ''robert'') (Some ''bob@example.org'') (Some ''pw'') =
     Inr (out demo_store None
            [(''Account with this username or email already exists.'', ''error'')]
            (Redirect To_register))
   \<and> register 5 demo_store (Some 2) POST (Some ''bob'') (Some ''other@example.org'')
       (Some ''pw'') =
     Inr (out demo_store (Some 2) [] (Redirect To_index))
   \<and> user_tbl (store_after demo_store
        (register 5 demo_store None POST (Some ''robert'') (Some ''bob@example.org'')
           (Some ''pw''))) =
     user_tbl demo_store"
proof -
  have m: "demo_bob \<in> set (user_tbl demo_store)" by (simp add: demo_store_def)
  have e: "''bob@example.org'' = u_email demo_bob \<or> ''robert'' = u_username demo_bob"
    and n: "''other@example.org'' = u_email demo_bob \<or> ''bob'' = u_username demo_bob"
    by (simp_all add: demo_bob_def)
  show ?thesis
    using register_reused_identity [OF m e, where c = None and salt = 5 and password = "''pw''"]
      register_reused_identity [OF m n, where c = "Some 2" and salt = 5
        and password = "''pw''"]
      current_user_demo_None current_user_demo_bob
    by (simp add: store_after_def out_def)
qed

text \<open>
  The claim C4 as the specification words it fails: the client that has just registered
  \<open>eve\<close> is logged in, and its second registration, which reuses her email with
  another username, is answered with a redirect to the index and no conflict message.
\<close>

theorem register_reuse_logged_in_counterexample:
  "register 9 demo_store None POST (Some ''eve'') (Some ''eve@example.org'') (Some ''pw'') =
     Inr (out (demo_store\<lparr>user_tbl := user_tbl demo_store @
                  [\<lparr>u_id = 3, u_username = ''eve'', u_email = ''eve@example.org'',
                    u_password_hash = Hashed 9 ''pw''\<rparr>]\<rparr>)
            (Some 3)
            [(''Account created successfully. Welcome, eve!'', ''success'')]
            (Redirect To_index))
   \<and> register 9
       (demo_store\<lparr>user_tbl := user_tbl demo_store @
                  [\<lparr>u_id = 3, u_username = ''eve'', u_email = ''eve@example.org'',
                    u_password_hash = Hashed 9 ''pw''\<rparr>]\<rparr>)
       (Some 3) POST (Some ''eva'') (Some ''eve@example.org'') (Some ''pw'') =
     Inr (out (demo_store\<lparr>user_tbl := user_tbl demo_store @
                  [\<lparr>u_id = 3, u_username = ''eve'', u_email = ''eve@example.org'',
                    u_password_hash = Hashed 9 ''pw''\<rparr>]\<rparr>)
            (Some 3) [] (Redirect To_index))"
  by (simp add: register_def current_user_def load_user_def add_user_def next_id_def
      demo_store_def demo_bob_def Let_def eval_nat_numeral)

subsection \<open>Adding movies\<close>

text \<open>
  C6: a logged-in caller whose username is not \<open>admin\<close> gets the access-denied message
  and a redirect from the add-movie route, whatever the method and the form; the store
  that comes back is the store that went in, so no movie row is inserted.
\<close>

theorem add_movie_non_admin:
  "current_user s c = Some cu \<Longrightarrow> u_username cu \<noteq> ''admin'' \<Longrightarrow>
   add_movie dl s c meth form =
     out s c [(''Access denied. Only the admin can add movies.'', ''error'')] (Redirect To_index)
   \<and> movie_tbl (o_store (add_movie dl s c meth form)) = movie_tbl s"
  by (simp add: add_movie_def out_def)

theorem add_movie_non_admin_witness:
  "add_movie 4300 demo_store (Some 2) POST demo_form =
     out demo_store (Some 2)
       [(''Access denied. Only the admin can add movies.'', ''error'')] (Redirect To_index)
   \<and> movie_tbl (o_store (add_movie 4300 demo_store (Some 2) POST demo_form)) = [demo_movie]"
proof -
  have m: "movie_tbl demo_store = [demo_movie]" by (simp add: demo_store_def)
  show ?thesis
    using add_movie_non_admin [OF current_user_demo_bob, where dl = 4300 and meth = POST
        and form = demo_form]
    by (simp add: m out_def demo_bob_def)
qed

text \<open>
  C8, as the code has it: \<open>register\<close> checks nothing about the fields but that no
  existing account has the username or the email. For an anonymous caller and any
  username, email and password at all (empty ones and malformed emails too) that
  collide with no account, a user row with exactly those fields is appended and the
  caller is logged in as that user.
\<close>

theorem register_unvalidated:
  assumes "current_user s c = None"
    and "\<forall>u \<in> set (user_tbl s). u_username u \<noteq> username \<and> u_email u \<noteq> email"
  shows "register salt s c POST (Some username) (Some email) (Some password) =
     Inr (out (s\<lparr>user_tbl := user_tbl s @
                  [\<lparr>u_id = next_id (map u_id (user_tbl s)), u_username = username,
                    u_email = email, u_password_hash = Hashed salt password\<rparr>]\<rparr>)
            (Some (next_id (map u_id (user_tbl s))))
            [(''Account created successfully. Welcome, '' @ username @ ''!'', ''success'')]
            (Redirect To_index))"
proof -
  have "find (\<lambda>u. u_username u = username \<or> u_email u = email) (user_tbl s) = None"
    using assms(2) by (auto simp: find_None_iff)
  moreover have "\<not> (\<exists>u \<in> set (user_tbl s). u_username u = username \<or> u_email u = email)"
    using assms(2) by auto
  ultimately show ?thesis using assms(1)
    by (simp add: register_def add_user_def Let_def)
qed

theorem register_unvalidated_witness:
  "register 9 demo_store None POST (Some ''eve'') (Some ''not-an-email'') (Some []) =
     Inr (out (demo_store\<lparr>user_tbl := user_tbl demo_store @
                  [\<lparr>u_id = 3, u_username = ''eve'',
                    u_email = ''not-an-email'', u_password_hash = Hashed 9 []\<rparr>]\<rparr>)
            (Some 3)
            [(''Account created successfully. Welcome, eve!'', ''success'')]
            (Redirect To_index))"
proof -
  have b: "\<forall>u \<in> set (user_tbl demo_store). u_username u \<noteq> ''eve'' \<and> u_email u \<noteq> ''not-an-email''"
    by (simp add: demo_store_def demo_bob_def)
  have n: "next_id (map u_id (user_tbl demo_store)) = 3"
    by (simp add: demo_store_def demo_bob_def next_id_def)
  show ?thesis
    using register_unvalidated [OF current_user_demo_None b, of 9 "[]"] by (simp add: n)
qed

text \<open>
  The claim C8 as the specification words it fails: on the empty store, a registration
  whose username, email and password are all empty creates a user row.
\<close>

theorem register_empty_fields_counterexample:
  "register 0 empty_store None POST (Some []) (Some []) (Some []) =
     Inr (out (empty_store\<lparr>user_tbl :=
                 [\<lparr>u_id = 1, u_username = [], u_email = [], u_password_hash = Hashed 0 []\<rparr>]\<rparr>)
            (Some 1) [(''Account created successfully. Welcome, !'', ''success'')]
            (Redirect To_index))"
  by (simp add: register_def current_user_def empty_store_def add_user_def next_id_def Let_def)

text \<open>
  C7, as the code has it: the logout route is behind the login guard. For a caller with
  no logged-in user the guard answers (the login manager's message in the error
  category, a redirect to the login page) and store and session are as before; for a
  logged-in caller the session is cleared, the success message is flashed, and the
  cleared session has no current user.
\<close>

theorem logout_guarded:
  "(current_user s c = None \<longrightarrow>
      logout s c =
        out s c [(''Please log in to access this page.'', ''error'')] (Redirect To_login))
   \<and> (current_user s c = Some cu \<longrightarrow>
      logout s c = out s None [(''You have been logged out.'', ''success'')] (Redirect To_index)
      \<and> current_user (o_store (logout s c)) (o_session (logout s c)) = None)"
  by (simp add: logout_def unauthorized_def out_def current_user_def)

theorem logout_guarded_witness:
  "logout demo_store None =
     out demo_store None [(''Please log in to access this page.'', ''error'')] (Redirect To_login)
   \<and> logout demo_store (Some 2) =
     out demo_store None [(''You have been logged out.'', ''success'')] (Redirect To_index)
   \<and> current_user (o_store (logout demo_store (Some 2)))
        (o_session (logout demo_store (Some 2))) = None"
  using logout_guarded [of demo_store None] logout_guarded [of demo_store "Some 2" demo_bob]
    current_user_demo_None current_user_demo_bob
  by (simp add: out_def)

text \<open>
  The claim C7 as the specification words it fails: with no session, logout does not
  answer with its success outcome but with the guard's error message and a redirect to
  the login page.
\<close>

theorem logout_anonymous_counterexample:
  "o_flashes (logout demo_store None) = [(''Please log in to access this page.'', ''error'')]
   \<and> o_page (logout demo_store None) = Redirect To_login
   \<and> logout demo_store None \<noteq>
       out demo_store None [(''You have been logged out.'', ''success'')] (Redirect To_index)"
  by (simp add: logout_def current_user_def unauthorized_def out_def)

subsection \<open>Reviews\<close>

lemma map_map_keep:
  "(\<And>x. k (f x) = k x) \<Longrightarrow> map k (map f xs) = map k xs"
  by (induction xs) auto

lemma submit_review_valid:
  assumes cu: "current_user s c = Some cu"
    and mv: "get_movie s mid = Some mv"
    and r: "py_int dl rs = Some r" "1 \<le> r" "r \<le> 5"
    and t: "t \<noteq> []"
  shows "submit_review dl now s c mid (Some rs) (Some t) =
     (case find (\<lambda>x. r_user_id x = u_id cu \<and> r_movie_id x = mid) (review_tbl s) of
        Some e \<Rightarrow>
          out (s\<lparr>review_tbl :=
                 map (\<lambda>x. if r_id x = r_id e
                           then x\<lparr>r_rating := r, r_text := t, r_timestamp := now\<rparr>
                           else x) (review_tbl s)\<rparr>)
            c [(''Your review has been updated!'', ''success'')] (Redirect (To_movie_detail mid))
      | None \<Rightarrow>
          out (s\<lparr>review_tbl := review_tbl s @
                 [\<lparr>r_id = next_id (map r_id (review_tbl s)), r_text = t, r_rating = r,
                   r_timestamp = now, r_user_id = u_id cu, r_movie_id = mid\<rparr>]\<rparr>)
            c [(''Your review has been posted!'', ''success'')] (Redirect (To_movie_detail mid)))"
proof -
  obtain rc rcs where rs: "rs = rc # rcs" using r(1) by (cases rs) (auto simp: py_int_Nil)
  obtain tc tcs where ts: "t = tc # tcs" using t by (cases t) auto
  show ?thesis
  proof (cases "find (\<lambda>x. r_user_id x = u_id cu \<and> r_movie_id x = mid) (review_tbl s)")
    case None
    then have "\<not> (\<exists>x \<in> set (review_tbl s). r_user_id x = u_id cu \<and> r_movie_id x = mid)"
      by (auto simp: find_None_iff)
    then show ?thesis
      using cu mv r None unfolding submit_review_def add_review_def rs ts by auto
  next
    case (Some e)
    then show ?thesis
      using cu mv r unfolding submit_review_def rs ts by simp
  qed
qed

lemma submit_review_row:
  assumes d: "distinct (map (\<lambda>r. (r_user_id r, r_movie_id r)) (review_tbl s))"
    and cu: "current_user s c = Some cu"
    and mv: "get_movie s mid = Some mv"
    and r: "py_int dl rs = Some r" "1 \<le> r" "r \<le> 5"
    and t: "t \<noteq> []"
  shows "\<exists>x. filter (\<lambda>x. r_user_id x = u_id cu \<and> r_movie_id x = mid)
            (review_tbl (o_store (submit_review dl now s c mid (Some rs) (Some t)))) = [x]
          \<and> r_rating x = r \<and> r_text x = t \<and> r_timestamp x = now"
proof -
  let ?P = "\<lambda>x. r_user_id x = u_id cu \<and> r_movie_id x = mid"
  note v = submit_review_valid [OF cu mv r t]
  show ?thesis
  proof (cases "find ?P (review_tbl s)")
    case None
    then have f: "filter ?P (review_tbl s) = []" by (rule filter_find_None)
    then show ?thesis by (simp add: v None out_def)
  next
    case (Some e)
    have f: "filter ?P (review_tbl s) = [e]"
      using filter_find_distinct [OF d, of "(u_id cu, mid)" e] Some by simp
    let ?f = "\<lambda>x. if r_id x = r_id e then x\<lparr>r_rating := r, r_text := t, r_timestamp := now\<rparr> else x"
    have "filter ?P (map ?f (review_tbl s)) = map ?f (filter ?P (review_tbl s))"
      by (rule filter_map_keep) simp
    then have "filter ?P (map ?f (review_tbl s)) = [?f e]" using f by simp
    then show ?thesis by (simp add: v Some out_def)
  qed
qed

lemma submit_review_valid_frame:
  assumes d: "distinct (map (\<lambda>r. (r_user_id r, r_movie_id r)) (review_tbl s))"
    and cu: "current_user s c = Some cu"
    and mv: "get_movie s mid = Some mv"
    and r: "py_int dl rs = Some r" "1 \<le> r" "r \<le> 5"
    and t: "t \<noteq> []"
  shows "user_tbl (o_store (submit_review dl now s c mid (Some rs) (Some t))) = user_tbl s"
    and "movie_tbl (o_store (submit_review dl now s c mid (Some rs) (Some t))) = movie_tbl s"
    and "o_session (submit_review dl now s c mid (Some rs) (Some t)) = c"
    and "distinct (map (\<lambda>r. (r_user_id r, r_movie_id r))
           (review_tbl (o_store (submit_review dl now s c mid (Some rs) (Some t)))))"
proof -
  note v = submit_review_valid [OF cu mv r t]
  show "user_tbl (o_store (submit_review dl now s c mid (Some rs) (Some t))) = user_tbl s"
    by (simp add: v out_def split: option.split)
  show "movie_tbl (o_store (submit_review dl now s c mid (Some rs) (Some t))) = movie_tbl s"
    by (simp add: v out_def split: option.split)
  show "o_session (submit_review dl now s c mid (Some rs) (Some t)) = c"
    by (simp add: v out_def split: option.split)
  show "distinct (map (\<lambda>r. (r_user_id r, r_movie_id r))
           (review_tbl (o_store (submit_review dl now s c mid (Some rs) (Some t)))))"
  proof (cases "find (\<lambda>x. r_user_id x = u_id cu \<and> r_movie_id x = mid) (review_tbl s)")
    case None
    then have "(u_id cu, mid) \<notin> set (map (\<lambda>r. (r_user_id r, r_movie_id r)) (review_tbl s))"
      by (auto simp: find_None_iff)
    then show ?thesis using d by (simp add: v None out_def)
  next
    case (Some e)
    have "map (\<lambda>r. (r_user_id r, r_movie_id r))
            (map (\<lambda>x. if r_id x = r_id e
                       then x\<lparr>r_rating := r, r_text := t, r_timestamp := now\<rparr> else x)
               (review_tbl s)) = map (\<lambda>r. (r_user_id r, r_movie_id r)) (review_tbl s)"
      by (rule map_map_keep) simp
    then show ?thesis using d by (simp add: v Some out_def del: map_map)
  qed
qed

text \<open>
  C1: for a store that meets the schema's constraints, a logged-in user and an
  existing movie, two submissions in a row whose ratings read as integers in [1,5] and
  whose texts are non-empty leave exactly one review row for that (user, movie) pair;
  its rating, text and timestamp are those of the second submission, which is answered
  as an update and adds no row.
\<close>

theorem submit_review_twice:
  assumes ok: "schema_ok s"
    and cu: "current_user s c = Some cu"
    and mv: "get_movie s mid = Some mv"
    and r1: "py_int dl rs1 = Some r1" "1 \<le> r1" "r1 \<le> 5" and t1: "t1 \<noteq> []"
    and r2: "py_int dl rs2 = Some r2" "1 \<le> r2" "r2 \<le> 5" and t2: "t2 \<noteq> []"
  shows "let o1 = submit_review dl now1 s c mid (Some rs1) (Some t1);
             o2 = submit_review dl now2 (o_store o1) (o_session o1) mid (Some rs2) (Some t2)
         in (\<exists>x. filter (\<lambda>x. r_user_id x = u_id cu \<and> r_movie_id x = mid)
                    (review_tbl (o_store o2)) = [x]
                \<and> r_rating x = r2 \<and> r_text x = t2 \<and> r_timestamp x = now2)
            \<and> o_flashes o2 = [(''Your review has been updated!'', ''success'')]
            \<and> length (review_tbl (o_store o2)) = length (review_tbl (o_store o1))"
proof -
  let ?P = "\<lambda>x. r_user_id x = u_id cu \<and> r_movie_id x = mid"
  let ?o1 = "submit_review dl now1 s c mid (Some rs1) (Some t1)"
  let ?o2 = "submit_review dl now2 (o_store ?o1) (o_session ?o1) mid (Some rs2) (Some t2)"
  have d: "distinct (map (\<lambda>r. (r_user_id r, r_movie_id r)) (review_tbl s))"
    using ok by (simp add: schema_ok_def)
  note fr = submit_review_valid_frame [OF d cu mv r1 t1, of now1]
  have cu1: "current_user (o_store ?o1) (o_session ?o1) = Some cu"
    using cu unfolding current_user_def load_user_def fr(1) fr(3) by simp
  have mv1: "get_movie (o_store ?o1) mid = Some mv"
    using mv by (simp add: fr get_movie_def)
  obtain x1 where x1: "filter ?P (review_tbl (o_store ?o1)) = [x1]"
    using submit_review_row [OF d cu mv r1 t1, of now1] by blast
  then have "find ?P (review_tbl (o_store ?o1)) \<noteq> None"
    by (metis filter_find_None not_Cons_self2)
  then obtain e where e: "find ?P (review_tbl (o_store ?o1)) = Some e" by auto
  note v2 = submit_review_valid [OF cu1 mv1 r2 t2, of now2]
  have a: "\<exists>x. filter ?P (review_tbl (o_store ?o2)) = [x]
                \<and> r_rating x = r2 \<and> r_text x = t2 \<and> r_timestamp x = now2"
    by (rule submit_review_row [OF fr(4) cu1 mv1 r2 t2])
  have b: "o_flashes ?o2 = [(''Your review has been updated!'', ''success'')]"
    by (simp add: v2 e out_def)
  have c: "length (review_tbl (o_store ?o2)) = length (review_tbl (o_store ?o1))"
    by (simp add: v2 e out_def)
  show ?thesis unfolding Let_def using a b c by blast
qed


lemma schema_ok_demo: "schema_ok demo_store"
  by (simp add: schema_ok_def demo_store_def demo_bob_def)

lemma py_int_3: "py_int 4300 ''3'' = Some 3"
  by (simp add: py_int_def is_space_def is_digit_def digit_val_def)

lemma py_int_5: "py_int 4300 '' 5'' = Some 5"
  by (simp add: py_int_def is_space_def is_digit_def digit_val_def)

theorem submit_review_twice_witness:
  "let o1 = submit_review 4300 100 demo_store (Some 2) 1 (Some ''3'') (Some ''fine'');
       o2 = submit_review 4300 200 (o_store o1) (o_session o1) 1 (Some '' 5'') (Some ''great'')
   in (\<exists>x. filter (\<lambda>x. r_user_id x = 2 \<and> r_movie_id x = 1) (review_tbl (o_store o2)) = [x]
          \<and> r_rating x = 5 \<and> r_text x = ''great'' \<and> r_timestamp x = 200)
      \<and> o_flashes o2 = [(''Your review has been updated!'', ''success'')]
      \<and> length (review_tbl (o_store o2)) = length (review_tbl (o_store o1))"
  using submit_review_twice [OF schema_ok_demo current_user_demo_bob get_movie_demo py_int_3 _ _ _
      py_int_5, of "''fine''" "''great''" 100 200]
  by (simp add: demo_bob_def)

subsection \<open>The watchlist\<close>

lemma fold_max_ge: "(a::nat) \<le> fold max xs a"
  by (induction xs arbitrary: a) (auto intro: order_trans [OF max.cobounded2])

lemma fold_max_mem: "x \<in> set xs \<Longrightarrow> (x::nat) \<le> fold max xs a"
proof (induction xs arbitrary: a)
  case Nil
  then show ?case by simp
next
  case (Cons y ys)
  show ?case
  proof (cases "x = y")
    case True
    have "max y a \<le> fold max ys (max y a)" by (rule fold_max_ge)
    then show ?thesis using True by simp
  next
    case False
    with Cons show ?thesis by simp
  qed
qed

lemma next_id_fresh: "x \<in> set ids \<Longrightarrow> x < next_id ids"
  using fold_max_mem [of x ids 0] by (simp add: next_id_def)

lemma on_watchlist_iff:
  "on_watchlist s u m \<longleftrightarrow> (u, m) \<in> set (map (\<lambda>w. (w_user_id w, w_movie_id w)) (watchlist_tbl s))"
  by (auto simp: on_watchlist_def find_None_iff)

lemma toggle_watchlist_logged_in:
  assumes cu: "current_user s c = Some cu" and mv: "get_movie s mid = Some mv"
  shows "toggle_watchlist s c mid referrer =
     (case find (\<lambda>w. w_user_id w = u_id cu \<and> w_movie_id w = mid) (watchlist_tbl s) of
        Some e \<Rightarrow>
          out (s\<lparr>watchlist_tbl := filter (\<lambda>w. w_id w \<noteq> w_id e) (watchlist_tbl s)\<rparr>)
            c [(dq # m_title mv @ dq # '' removed from your watchlist.'', ''info'')]
            (Redirect (or_url referrer (To_movie_detail mid)))
      | None \<Rightarrow>
          out (s\<lparr>watchlist_tbl := watchlist_tbl s @
                 [\<lparr>w_id = next_id (map w_id (watchlist_tbl s)), w_user_id = u_id cu,
                   w_movie_id = mid\<rparr>]\<rparr>)
            c [(dq # m_title mv @ dq # '' added to your watchlist!'', ''success'')]
            (Redirect (or_url referrer (To_movie_detail mid))))"
proof (cases "find (\<lambda>w. w_user_id w = u_id cu \<and> w_movie_id w = mid) (watchlist_tbl s)")
  case None
  then have "\<not> (\<exists>w \<in> set (watchlist_tbl s). w_user_id w = u_id cu \<and> w_movie_id w = mid)"
    by (auto simp: find_None_iff)
  then show ?thesis
    using cu mv None unfolding toggle_watchlist_def add_watchlist_item_def by auto
next
  case (Some e)
  then show ?thesis
    using cu mv unfolding toggle_watchlist_def by simp
qed

lemma pairs_after_delete:
  assumes di: "distinct (map w_id xs)"
    and dp: "distinct (map (\<lambda>w. (w_user_id w, w_movie_id w)) xs)"
    and e: "e \<in> set xs"
  shows "set (map (\<lambda>w. (w_user_id w, w_movie_id w)) (filter (\<lambda>w. w_id w \<noteq> w_id e) xs)) =
         set (map (\<lambda>w. (w_user_id w, w_movie_id w)) xs) - {(w_user_id e, w_movie_id e)}"
proof -
  have ii: "inj_on w_id (set xs)" using di by (simp add: distinct_map)
  have ip: "inj_on (\<lambda>w. (w_user_id w, w_movie_id w)) (set xs)" using dp by (simp add: distinct_map)
  have k: "\<And>x. x \<in> set xs \<Longrightarrow> (w_id x = w_id e) = (x = e)"
    using ii e by (auto dest: inj_onD)
  have p: "\<And>x. x \<in> set xs \<Longrightarrow>
      ((w_user_id x, w_movie_id x) = (w_user_id e, w_movie_id e)) = (x = e)"
    using ip e by (auto dest: inj_onD)
  show ?thesis
  proof (rule set_eqI)
    fix q
    show "q \<in> set (map (\<lambda>w. (w_user_id w, w_movie_id w)) (filter (\<lambda>w. w_id w \<noteq> w_id e) xs))
      \<longleftrightarrow> q \<in> set (map (\<lambda>w. (w_user_id w, w_movie_id w)) xs) - {(w_user_id e, w_movie_id e)}"
      using k p by (auto simp: image_iff)
  qed
qed


lemma current_user_same_users:
  "user_tbl s' = user_tbl s \<Longrightarrow> current_user s' c = current_user s c"
  by (cases c) (simp_all add: current_user_def load_user_def)

lemma get_movie_same_movies:
  "movie_tbl s' = movie_tbl s \<Longrightarrow> get_movie s' mid = get_movie s mid"
  by (simp add: get_movie_def)

lemma filter_fresh_id:
  "\<forall>x \<in> set xs. w_id x \<noteq> n \<Longrightarrow> filter (\<lambda>w. w_id w \<noteq> n) xs = xs"
  by (induction xs) auto

lemma find_append_new:
  "find P xs = None \<Longrightarrow> P y \<Longrightarrow> find P (xs @ [y]) = Some y"
  by (induction xs) (auto split: if_splits)

text \<open>
  C2: for a store that meets the schema's constraints, a logged-in user and an
  existing movie, two toggles in a row for that movie leave every (user, movie) pair's
  watchlist membership as it was before the first. If the pair was on the watchlist,
  the first toggle deletes the entry and reports the removal and the second inserts one
  and reports the addition; otherwise the first inserts and the second deletes.
\<close>

theorem toggle_watchlist_twice:
  assumes ok: "schema_ok s"
    and cu: "current_user s c = Some cu"
    and mv: "get_movie s mid = Some mv"
  shows "let o1 = toggle_watchlist s c mid ref1;
             o2 = toggle_watchlist (o_store o1) (o_session o1) mid ref2
         in (\<forall>u m. on_watchlist (o_store o2) u m = on_watchlist s u m)
            \<and> (if on_watchlist s (u_id cu) mid
                then o_flashes o1 =
                       [(dq # m_title mv @ dq # '' removed from your watchlist.'', ''info'')]
                     \<and> \<not> on_watchlist (o_store o1) (u_id cu) mid
                     \<and> o_flashes o2 =
                       [(dq # m_title mv @ dq # '' added to your watchlist!'', ''success'')]
                else o_flashes o1 =
                       [(dq # m_title mv @ dq # '' added to your watchlist!'', ''success'')]
                     \<and> on_watchlist (o_store o1) (u_id cu) mid
                     \<and> o_flashes o2 =
                       [(dq # m_title mv @ dq # '' removed from your watchlist.'', ''info'')])"
proof -
  let ?P = "\<lambda>w. w_user_id w = u_id cu \<and> w_movie_id w = mid"
  let ?pr = "\<lambda>w. (w_user_id w, w_movie_id w)"
  let ?o1 = "toggle_watchlist s c mid ref1"
  let ?o2 = "toggle_watchlist (o_store ?o1) (o_session ?o1) mid ref2"
  have di: "distinct (map w_id (watchlist_tbl s))"
    and dp: "distinct (map ?pr (watchlist_tbl s))"
    using ok by (simp_all add: schema_ok_def)
  note t1 = toggle_watchlist_logged_in [OF cu mv, of ref1]
  show ?thesis
  proof (cases "find ?P (watchlist_tbl s)")
    case None
    let ?w = "\<lparr>w_id = next_id (map w_id (watchlist_tbl s)), w_user_id = u_id cu,
               w_movie_id = mid\<rparr>"
    have o1: "?o1 = out (s\<lparr>watchlist_tbl := watchlist_tbl s @ [?w]\<rparr>) c
                [(dq # m_title mv @ dq # '' added to your watchlist!'', ''success'')]
                (Redirect (or_url ref1 (To_movie_detail mid)))"
      by (simp add: t1 None)
    have s1: "o_store ?o1 = s\<lparr>watchlist_tbl := watchlist_tbl s @ [?w]\<rparr>"
      and c1: "o_session ?o1 = c"
      by (simp_all add: o1 out_def)
    have cu1: "current_user (o_store ?o1) (o_session ?o1) = Some cu"
      unfolding s1 c1 using cu by (subst current_user_same_users [where s = s]) simp_all
    have mv1: "get_movie (o_store ?o1) mid = Some mv"
      unfolding s1 using mv by (subst get_movie_same_movies [where s = s]) simp_all
    have f1: "find ?P (watchlist_tbl (o_store ?o1)) = Some ?w"
      unfolding s1 using find_append_new [OF None, of ?w] by simp
    have fresh: "\<forall>x \<in> set (watchlist_tbl s). w_id x \<noteq> next_id (map w_id (watchlist_tbl s))"
    proof
      fix x assume "x \<in> set (watchlist_tbl s)"
      then have "w_id x \<in> set (map w_id (watchlist_tbl s))" by simp
      from next_id_fresh [OF this] show "w_id x \<noteq> next_id (map w_id (watchlist_tbl s))" by simp
    qed
    have o2: "?o2 = out s c
                [(dq # m_title mv @ dq # '' removed from your watchlist.'', ''info'')]
                (Redirect (or_url ref2 (To_movie_detail mid)))"
      unfolding toggle_watchlist_logged_in [OF cu1 mv1] f1
      by (simp add: s1 c1 filter_fresh_id [OF fresh])
    have n: "\<not> on_watchlist s (u_id cu) mid"
      using None by (simp add: on_watchlist_def)
    have y: "on_watchlist (o_store ?o1) (u_id cu) mid"
      using f1 by (simp add: on_watchlist_def)
    have fl1: "o_flashes ?o1 = [(dq # m_title mv @ dq # '' added to your watchlist!'', ''success'')]"
      by (simp add: o1 out_def)
    have fl2: "o_flashes ?o2 = [(dq # m_title mv @ dq # '' removed from your watchlist.'', ''info'')]"
      by (simp add: o2 out_def)
    have st2: "o_store ?o2 = s" by (simp add: o2 out_def)
    show ?thesis unfolding Let_def using n y fl1 fl2 st2 by simp
  next
    case (Some e)
    have e: "e \<in> set (watchlist_tbl s)" and pe: "?pr e = (u_id cu, mid)"
      using Some by (auto simp: find_Some_iff)
    let ?xs = "filter (\<lambda>w. w_id w \<noteq> w_id e) (watchlist_tbl s)"
    let ?w = "\<lparr>w_id = next_id (map w_id ?xs), w_user_id = u_id cu, w_movie_id = mid\<rparr>"
    have o1: "?o1 = out (s\<lparr>watchlist_tbl := ?xs\<rparr>) c
                [(dq # m_title mv @ dq # '' removed from your watchlist.'', ''info'')]
                (Redirect (or_url ref1 (To_movie_detail mid)))"
      by (simp add: t1 Some)
    have s1: "o_store ?o1 = s\<lparr>watchlist_tbl := ?xs\<rparr>"
      and c1: "o_session ?o1 = c"
      by (simp_all add: o1 out_def)
    have cu1: "current_user (o_store ?o1) (o_session ?o1) = Some cu"
      unfolding s1 c1 using cu by (subst current_user_same_users [where s = s]) simp_all
    have mv1: "get_movie (o_store ?o1) mid = Some mv"
      unfolding s1 using mv by (subst get_movie_same_movies [where s = s]) simp_all
    have pd: "set (map ?pr ?xs) = set (map ?pr (watchlist_tbl s)) - {(u_id cu, mid)}"
      using pairs_after_delete [OF di dp e] pe by simp
    then have np: "(u_id cu, mid) \<notin> set (map ?pr ?xs)" by blast
    have "\<not> ?P x" if "x \<in> set ?xs" for x
    proof
      assume "?P x"
      then have "?pr x = (u_id cu, mid)" by simp
      moreover have "?pr x \<in> set (map ?pr ?xs)"
        using that by (simp only: set_map) (rule imageI)
      ultimately show False using np by simp
    qed
    then have f1: "find ?P (watchlist_tbl (o_store ?o1)) = None"
      unfolding s1 by (auto simp: find_None_iff)
    have o2: "?o2 = out (s\<lparr>watchlist_tbl := ?xs @ [?w]\<rparr>) c
                [(dq # m_title mv @ dq # '' added to your watchlist!'', ''success'')]
                (Redirect (or_url ref2 (To_movie_detail mid)))"
      unfolding toggle_watchlist_logged_in [OF cu1 mv1] f1
      by (simp add: s1 c1)
    have y: "on_watchlist s (u_id cu) mid"
      using Some by (simp add: on_watchlist_def)
    have n: "\<not> on_watchlist (o_store ?o1) (u_id cu) mid"
      using f1 by (simp add: on_watchlist_def)
    have fl1: "o_flashes ?o1 = [(dq # m_title mv @ dq # '' removed from your watchlist.'', ''info'')]"
      by (simp add: o1 out_def)
    have fl2: "o_flashes ?o2 = [(dq # m_title mv @ dq # '' added to your watchlist!'', ''success'')]"
      by (simp add: o2 out_def)
    have "set (map ?pr (watchlist_tbl (o_store ?o2))) = set (map ?pr (watchlist_tbl s))"
    proof -
      have "set (map ?pr (watchlist_tbl (o_store ?o2))) = insert (u_id cu, mid) (set (map ?pr ?xs))"
        by (simp add: o2 out_def)
      also have "\<dots> = insert (u_id cu, mid) (set (map ?pr (watchlist_tbl s)))"
        unfolding pd by blast
      also have "\<dots> = set (map ?pr (watchlist_tbl s))"
      proof -
        have "?pr e \<in> set (map ?pr (watchlist_tbl s))" using e by (simp only: set_map) (rule imageI)
        then show ?thesis unfolding pe by (rule insert_absorb)
      qed
      finally show ?thesis .
    qed
    then have all: "\<forall>u m. on_watchlist (o_store ?o2) u m = on_watchlist s u m"
      by (simp only: on_watchlist_iff) simp
    show ?thesis unfolding Let_def using y n fl1 fl2 all by simp
  qed
qed


theorem toggle_watchlist_twice_witness:
  "let o1 = toggle_watchlist demo_store (Some 2) 1 None;
       o2 = toggle_watchlist (o_store o1) (o_session o1) 1 None
   in (\<forall>u m. on_watchlist (o_store o2) u m = on_watchlist demo_store u m)
      \<and> o_flashes o1 = [(dq # ''Dune: Part One'' @ dq # '' added to your watchlist!'', ''success'')]
      \<and> on_watchlist (o_store o1) 2 1
      \<and> o_flashes o2 =
          [(dq # ''Dune: Part One'' @ dq # '' removed from your watchlist.'', ''info'')]"
proof -
  have n: "\<not> on_watchlist demo_store (u_id demo_bob) 1"
    by (simp add: on_watchlist_def demo_store_def)
  have b: "u_id demo_bob = 2" and m: "m_title demo_movie = ''Dune: Part One''"
    by (simp_all add: demo_bob_def demo_movie_def)
  show ?thesis
    using toggle_watchlist_twice [OF schema_ok_demo current_user_demo_bob get_movie_demo,
        of None None] n
    unfolding Let_def b m by simp
qed

subsection \<open>Pages of the movie search\<close>

lemma concat_pages: "concat (map (\<lambda>i. take k (drop (k * i) xs)) [0..<n]) = take (k * n) xs"
proof (induction n)
  case 0
  then show ?case by simp
next
  case (Suc n)
  have "take (k * Suc n) xs = take (k * n) xs @ take k (drop (k * n) xs)"
    using take_add [of "k * n" k xs] by (simp add: add.commute)
  with Suc show ?case by simp
qed

lemma mset_order_by_desc: "mset (order_by_desc k xs) = mset xs"
  by (simp add: order_by_desc_def)

lemma sorted_order_by_desc: "sorted (rev (map k (order_by_desc k xs)))"
  by (simp add: order_by_desc_def rev_map)

lemma movies_page_unfiltered:
  "movies_page s [] [] (int (Suc i)) =
     take 12 (drop (12 * i) (order_by_desc m_year (movie_tbl s)))"
  by (simp add: movies_page_def Let_def nat_mult_distrib mult.commute)

lemma cards_api_movies:
  assumes "q \<in> {None, Some []}" "genre \<in> {None, Some []}"
  shows "cards (api_movies dl s c q genre (Some p)) =
     (case py_int dl p of None \<Rightarrow> [] | Some k \<Rightarrow> movies_page s [] [] k)"
  using assms by (auto simp: cards_def api_movies_def out_def split: option.split)

text \<open>
  C3: with no query and no genre filter (absent or empty), let the requested pages be
  strings that read as \<open>1, 2, ..., n\<close>, where \<open>12 * n\<close> is at least the number of
  movies. The cards of these pages, concatenated, are the whole movie table in
  descending order of year: the same multiset as the table, so every row exactly as
  often as the table has it, none omitted and none repeated.
\<close>

theorem api_movies_pages_cover:
  assumes q: "q \<in> {None, Some []}" and g: "genre \<in> {None, Some []}"
    and pages: "map (py_int dl) pages = map (\<lambda>i. Some (int (Suc i))) [0..<n]"
    and n: "length (movie_tbl s) \<le> 12 * n"
  shows "concat (map (\<lambda>p. cards (api_movies dl s c q genre (Some p))) pages) =
           order_by_desc m_year (movie_tbl s)
         \<and> mset (concat (map (\<lambda>p. cards (api_movies dl s c q genre (Some p))) pages)) =
           mset (movie_tbl s)
         \<and> sorted (rev (map m_year
             (concat (map (\<lambda>p. cards (api_movies dl s c q genre (Some p))) pages))))"
proof -
  let ?g = "\<lambda>r. case r of None \<Rightarrow> [] | Some k \<Rightarrow> movies_page s [] [] k"
  let ?sorted = "order_by_desc m_year (movie_tbl s)"
  have "map (\<lambda>p. cards (api_movies dl s c q genre (Some p))) pages =
        map ?g (map (py_int dl) pages)"
    by (simp add: cards_api_movies [OF q g] o_def)
  also have "\<dots> = map (\<lambda>i. take 12 (drop (12 * i) ?sorted)) [0..<n]"
    unfolding pages by (simp add: o_def movies_page_unfiltered del: upt_Suc of_nat_Suc)
  finally have "concat (map (\<lambda>p. cards (api_movies dl s c q genre (Some p))) pages) =
      take (12 * n) ?sorted"
    by (simp only: concat_pages)
  also have "\<dots> = ?sorted"
  proof -
    have "length ?sorted = length (movie_tbl s)"
      by (simp add: order_by_desc_def)
    then show ?thesis using n by simp
  qed
  finally have e: "concat (map (\<lambda>p. cards (api_movies dl s c q genre (Some p))) pages) = ?sorted" .
  show ?thesis unfolding e
    by (simp add: mset_order_by_desc sorted_order_by_desc)
qed

lemma seed_titles:
  "map m_title (movie_tbl (seed_data salt now)) = map fst sample"
  by (simp add: seed_data_def sample_def add_user_def add_movie_row_def add_review_def
      empty_store_def next_id_def Let_def)

theorem api_movies_pages_cover_witness:
  "concat (map (\<lambda>p. cards (api_movies 4300 (seed_data 0 0) None None (Some []) (Some p)))
             [''1'', '' 2'']) =
     order_by_desc m_year (movie_tbl (seed_data 0 0))
   \<and> mset (concat (map (\<lambda>p. cards (api_movies 4300 (seed_data 0 0) None None (Some []) (Some p)))
             [''1'', '' 2''])) =
     mset (movie_tbl (seed_data 0 0))
   \<and> sorted (rev (map m_year
        (concat (map (\<lambda>p. cards (api_movies 4300 (seed_data 0 0) None None (Some []) (Some p)))
             [''1'', '' 2'']))))"
proof -
  have p: "map (py_int 4300) [''1'', '' 2''] = map (\<lambda>i. Some (int (Suc i))) [0..<2]"
    by (simp add: py_int_def is_space_def is_digit_def digit_val_def upt_rec)
  have "length (map m_title (movie_tbl (seed_data 0 0))) = 10"
    unfolding seed_titles by (simp add: sample_def)
  then have n: "length (movie_tbl (seed_data 0 0)) \<le> 12 * 2" by simp
  show ?thesis
    by (rule api_movies_pages_cover [OF _ _ p n]) simp_all
qed

subsection \<open>Well-formed reviews\<close>

lemma reviews_ok_cong: "review_tbl s' = review_tbl s \<Longrightarrow> reviews_ok s' = reviews_ok s"
  by (simp add: reviews_ok_def)

lemma index_reviews: "review_tbl (o_store (index s c)) = review_tbl s"
  by (simp add: index_def out_def)

lemma api_movies_reviews:
  "review_tbl (store_after s (api_movies dl s c q genre page)) = review_tbl s"
  by (simp add: api_movies_def store_after_def out_def split: option.splits)

lemma movie_detail_reviews: "review_tbl (o_store (movie_detail s c mid)) = review_tbl s"
  by (simp add: movie_detail_def out_def Let_def split: option.splits)

lemma toggle_watchlist_reviews:
  "review_tbl (o_store (toggle_watchlist s c mid referrer)) = review_tbl s"
  by (simp add: toggle_watchlist_def out_def unauthorized_def add_watchlist_item_def
      split: option.splits)

lemma watchlist_reviews: "review_tbl (o_store (watchlist s c)) = review_tbl s"
  by (simp add: watchlist_def out_def unauthorized_def split: option.splits)

lemma login_reviews:
  "review_tbl (store_after s (login s c meth identity password next_page)) = review_tbl s"
  by (simp add: login_def store_after_def out_def split: option.splits)

lemma register_reviews:
  "review_tbl (store_after s (register salt s c meth username email password)) = review_tbl s"
  by (auto simp: register_def store_after_def out_def add_user_def Let_def
      split: option.splits)

lemma logout_reviews: "review_tbl (o_store (logout s c)) = review_tbl s"
  by (simp add: logout_def out_def unauthorized_def split: option.splits)

lemma add_movie_reviews: "review_tbl (o_store (add_movie dl s c meth form)) = review_tbl s"
  by (simp add: add_movie_def out_def unauthorized_def add_movie_row_def Let_def
      split: option.splits)

lemma edit_movie_reviews:
  "review_tbl (o_store (edit_movie dl s c meth mid form)) = review_tbl s"
  by (simp add: edit_movie_def out_def unauthorized_def split: option.splits)


lemma submit_review_store:
  "o_store (submit_review dl now s c mid rating tx) = s
   \<or> (\<exists>cu mv rs r t. current_user s c = Some cu \<and> get_movie s mid = Some mv
        \<and> rating = Some rs \<and> tx = Some t \<and> py_int dl rs = Some r
        \<and> 1 \<le> r \<and> r \<le> 5 \<and> t \<noteq> [])"
  by (simp add: submit_review_def out_def unauthorized_def
      split: option.split list.split)

lemma submit_review_reviews_ok:
  assumes ok: "reviews_ok s"
  shows "reviews_ok (o_store (submit_review dl now s c mid rating tx))"
proof (cases "o_store (submit_review dl now s c mid rating tx) = s")
  case True
  then show ?thesis using ok by simp
next
  case False
  then obtain cu mv rs r t where cu: "current_user s c = Some cu"
    and mv: "get_movie s mid = Some mv" and ra: "rating = Some rs" and tx: "tx = Some t"
    and r: "py_int dl rs = Some r" "1 \<le> r" "r \<le> 5" and t: "t \<noteq> []"
    using submit_review_store [of dl now s c mid rating tx] by blast
  note v = submit_review_valid [OF cu mv r t, of now]
  show ?thesis
  proof (cases "find (\<lambda>x. r_user_id x = u_id cu \<and> r_movie_id x = mid) (review_tbl s)")
    case None
    then show ?thesis using ok r(2,3) t
      unfolding ra tx v by (simp add: out_def reviews_ok_def)
  next
    case (Some e)
    then show ?thesis using ok r(2,3) t
      unfolding ra tx v by (auto simp: out_def reviews_ok_def)
  qed
qed

lemma submit_review_rejects:
  assumes "tx = None \<or> tx = Some [] \<or> rating = None
      \<or> (\<forall>rs r. rating = Some rs \<and> py_int dl rs = Some r \<longrightarrow> r < 1 \<or> 5 < r)"
  shows "o_store (submit_review dl now s c mid rating tx) = s"
proof (rule ccontr)
  assume "o_store (submit_review dl now s c mid rating tx) \<noteq> s"
  then obtain rs r t where "rating = Some rs" "tx = Some t" "py_int dl rs = Some r"
    "1 \<le> r" "r \<le> 5" "t \<noteq> []"
    using submit_review_store [of dl now s c mid rating tx] by blast
  with assms show False by auto
qed

lemma handle_reviews_ok:
  assumes "reviews_ok s"
  shows "reviews_ok (store_after s (handle dl s c rq))"
proof (cases rq)
  case (Post_submit_review tm mid rating tx)
  then show ?thesis
    using assms by (simp add: store_after_def submit_review_reviews_ok)
next
  case (Get_api_movies q genre page)
  then show ?thesis
    using assms by (simp add: reviews_ok_cong [OF api_movies_reviews])
next
  case (Req_login meth identity password next_page)
  then show ?thesis
    using assms by (simp add: reviews_ok_cong [OF login_reviews])
next
  case (Req_register salt meth username email password)
  then show ?thesis
    using assms by (simp add: reviews_ok_cong [OF register_reviews])
qed (use assms in \<open>simp_all add: store_after_def reviews_ok_cong [OF index_reviews]
      reviews_ok_cong [OF movie_detail_reviews]
      reviews_ok_cong [OF toggle_watchlist_reviews] reviews_ok_cong [OF watchlist_reviews]
      reviews_ok_cong [OF logout_reviews] reviews_ok_cong [OF add_movie_reviews]
      reviews_ok_cong [OF edit_movie_reviews]\<close>)

lemma run_reviews_ok: "reviews_ok s \<Longrightarrow> reviews_ok (run dl s reqs)"
proof (induction reqs arbitrary: s)
  case Nil
  then show ?case by simp
next
  case (Cons a reqs)
  obtain c rq where a: "a = (c, rq)" by (cases a)
  show ?case unfolding a run.simps
    by (rule Cons.IH) (rule handle_reviews_ok [OF Cons.prems])
qed

lemma handle_other_reviews:
  assumes "\<forall>tm m ra t. rq \<noteq> Post_submit_review tm m ra t"
  shows "review_tbl (store_after s (handle dl s c rq)) = review_tbl s"
proof (cases rq)
  case (Post_submit_review tm mid rating tx)
  then show ?thesis using assms by simp
next
  case (Get_api_movies q genre page)
  then show ?thesis by (simp add: api_movies_reviews)
next
  case (Req_login meth identity password next_page)
  then show ?thesis by (simp add: login_reviews)
next
  case (Req_register salt meth username email password)
  then show ?thesis by (simp add: register_reviews)
qed (simp_all add: store_after_def index_reviews movie_detail_reviews toggle_watchlist_reviews
      watchlist_reviews logout_reviews add_movie_reviews edit_movie_reviews)

lemma seed_reviews:
  "review_tbl (seed_data salt now) =
     [\<lparr>r_id = 1,
       r_text = ''A visually stunning and faithful adaptation. The sound design is incredible.'',
       r_rating = 5, r_timestamp = now, r_user_id = 1, r_movie_id = 2\<rparr>]"
  by (simp add: seed_data_def sample_def add_user_def add_movie_row_def add_review_def
      empty_store_def next_id_def Let_def)

lemma seed_reviews_ok: "reviews_ok (seed_data salt now)"
  by (simp add: reviews_ok_def seed_reviews)

text \<open>
  C9: after any sequence of requests, each with any session cookie, from the seeded
  store, and likewise from any store whose reviews are well-formed, every review row
  has a rating in [1,5] and a non-empty text. \<open>submit_review\<close> leaves the store as it
  was when the text is missing or empty, or the rating is missing, or does not read as
  an integer in [1,5]; and a request to any other route leaves the review table as it
  was.
\<close>

theorem reviews_invariant:
  "reviews_ok (run dl (seed_data salt now0) reqs)
   \<and> (reviews_ok s \<longrightarrow> reviews_ok (run dl s reqs))
   \<and> (tx = None \<or> tx = Some [] \<or> rating = None
        \<or> (\<forall>rs r. rating = Some rs \<and> py_int dl rs = Some r \<longrightarrow> r < 1 \<or> 5 < r)
      \<longrightarrow> o_store (submit_review dl now s c mid rating tx) = s)
   \<and> ((\<forall>tm m ra t. rq \<noteq> Post_submit_review tm m ra t)
      \<longrightarrow> review_tbl (store_after s (handle dl s c rq)) = review_tbl s)"
proof (intro conjI impI)
  show "reviews_ok (run dl (seed_data salt now0) reqs)"
    by (rule run_reviews_ok [OF seed_reviews_ok])
  show "reviews_ok (run dl s reqs)" if "reviews_ok s"
    using that by (rule run_reviews_ok)
  show "o_store (submit_review dl now s c mid rating tx) = s"
    if "tx = None \<or> tx = Some [] \<or> rating = None
        \<or> (\<forall>rs r. rating = Some rs \<and> py_int dl rs = Some r \<longrightarrow> r < 1 \<or> 5 < r)"
    using that by (rule submit_review_rejects)
  show "review_tbl (store_after s (handle dl s c rq)) = review_tbl s"
    if "\<forall>tm m ra t. rq \<noteq> Post_submit_review tm m ra t"
    using that by (rule handle_other_reviews)
qed


lemma py_int_9: "py_int 4300 ''9'' = Some 9"
  by (simp add: py_int_def is_space_def is_digit_def digit_val_def)

theorem reviews_invariant_witness:
  "reviews_ok (run 4300 (seed_data 0 0)
      [(Some 1, Post_submit_review 7 2 (Some ''4'') (Some ''Good'')), (None, Get_logout)])
   \<and> reviews_ok (run 4300 demo_store
      [(Some 1, Post_submit_review 7 2 (Some ''4'') (Some ''Good'')), (None, Get_logout)])
   \<and> o_store (submit_review 4300 7 demo_store (Some 2) 1 (Some ''9'') (Some ''Too long'')) =
       demo_store
   \<and> review_tbl (store_after demo_store (handle 4300 demo_store (Some 2) Get_logout)) =
       review_tbl demo_store"
proof -
  have ok: "reviews_ok demo_store" by (simp add: reviews_ok_def demo_store_def)
  have nine: "\<forall>rs r. Some ''9'' = Some rs \<and> py_int 4300 rs = Some r \<longrightarrow> r < 1 \<or> 5 < r"
    using py_int_9 by auto
  show ?thesis
    using reviews_invariant [where dl = 4300 and salt = 0 and ?now0.0 = 0 and s = demo_store
        and reqs = "[(Some 1, Post_submit_review 7 2 (Some ''4'') (Some ''Good'')), (None, Get_logout)]"
        and tx = "Some ''Too long''" and rating = "Some ''9''" and now = 7 and c = "Some 2"
        and mid = 1 and rq = Get_logout] ok nine
    by simp
qed

subsection \<open>The average rating\<close>

lemma pow2_powi: "pow2 e = power_int 2 e"
  by (simp add: pow2_def power_int_def power_one_over [symmetric] inverse_eq_divide)

lemma pow2_pos: "0 < pow2 e"
  by (simp add: pow2_powi)

lemma pow2_add: "pow2 (a + b) = pow2 a * pow2 b"
  by (simp add: pow2_powi power_int_add)

lemma pow2_nat: "0 \<le> e \<Longrightarrow> pow2 e = 2 ^ nat e"
  by (simp add: pow2_def)

lemma round_half_even_error: "\<bar>of_int (round_half_even y) - y\<bar> \<le> 1 / 2"
proof -
  have "of_int \<lfloor>y\<rfloor> \<le> y" "y < of_int \<lfloor>y\<rfloor> + 1" by linarith+
  then show ?thesis
    by (auto simp: round_half_even_def Let_def abs_le_iff)
qed

lemma ilog2_lower:
  assumes "x \<noteq> 0"
  shows "pow2 (ilog2 x) \<le> \<bar>x\<bar>"
proof -
  obtain a b where ab: "quotient_of \<bar>x\<bar> = (a, b)" by (cases "quotient_of \<bar>x\<bar>")
  have b: "0 < b" using ab by (rule quotient_of_denom_pos)
  have x: "\<bar>x\<bar> = of_int a / of_int b" using ab by (rule quotient_of_div)
  have "0 < \<bar>x\<bar>" using assms by simp
  then have a: "0 < a" using b unfolding x by (simp add: zero_less_divide_iff)
  let ?d = "bitlen a - bitlen b"
  have il: "ilog2 x = (if pow2 ?d \<le> \<bar>x\<bar> then ?d else ?d - 1)"
    by (simp add: ilog2_def ab Let_def)
  show ?thesis
  proof (cases "pow2 ?d \<le> \<bar>x\<bar>")
    case True
    then show ?thesis by (simp add: il)
  next
    case False
    have la: "1 \<le> bitlen a" and lb: "1 \<le> bitlen b"
      using a b bitlen_eq_zero_iff [of a] bitlen_eq_zero_iff [of b] bitlen_nonneg [of a]
        bitlen_nonneg [of b] by linarith+
    have "(2::int) ^ nat (bitlen a - 1) \<le> a" using bitlen_bounds [OF a] by simp
    then have "(of_int ((2::int) ^ nat (bitlen a - 1)) :: rat) \<le> of_int a"
      by (simp only: of_int_le_iff)
    then have A: "pow2 (bitlen a - 1) \<le> of_int a"
      using la by (simp add: pow2_nat)
    have "b < (2::int) ^ nat (bitlen b)" using bitlen_bounds [OF b] by simp
    then have "(of_int b :: rat) < of_int ((2::int) ^ nat (bitlen b))"
      by (simp only: of_int_less_iff)
    then have B: "of_int b \<le> pow2 (bitlen b)"
      using lb by (simp add: pow2_nat)
    have "pow2 (?d - 1) * pow2 (bitlen b) = pow2 (bitlen a - 1)"
      by (simp add: pow2_add [symmetric])
    then have "pow2 (?d - 1) * of_int b \<le> pow2 (bitlen a - 1)"
      using B pow2_pos [of "?d - 1"]
      by (metis mult_left_mono less_imp_le)
    then have "pow2 (?d - 1) * of_int b \<le> of_int a" using A by linarith
    then have "pow2 (?d - 1) \<le> of_int a / of_int b"
      using b by (simp add: le_divide_eq)
    then have "pow2 (?d - 1) \<le> \<bar>x\<bar>" by (simp only: x)
    then show ?thesis using False by (simp add: il)
  qed
qed

lemma to_double_error:
  assumes "x \<noteq> 0"
  shows "\<bar>to_double x - x\<bar> \<le> \<bar>x\<bar> / 2 ^ 53"
proof -
  let ?u = "pow2 (ilog2 x - 52)"
  have u: "0 < ?u" by (rule pow2_pos)
  have "?u = pow2 (ilog2 x) * pow2 (- 52)"
    using pow2_add [of "ilog2 x" "- 52"] by simp
  also have "pow2 (- 52) = 1 / 2 ^ 52" by (simp add: pow2_def)
  finally have "?u = pow2 (ilog2 x) / 2 ^ 52" by simp
  then have ux: "?u \<le> \<bar>x\<bar> / 2 ^ 52"
    using ilog2_lower [OF assms] by (simp add: divide_right_mono)
  have "to_double x - x = (of_int (round_half_even (x / ?u)) - x / ?u) * ?u"
    using assms u by (simp add: to_double_def Let_def field_simps)
  then have "\<bar>to_double x - x\<bar> = \<bar>of_int (round_half_even (x / ?u)) - x / ?u\<bar> * ?u"
    using u by (simp add: abs_mult)
  also have "\<dots> \<le> (1 / 2) * ?u"
    using round_half_even_error [of "x / ?u"] u by (intro mult_right_mono) simp_all
  also have "\<dots> \<le> (1 / 2) * (\<bar>x\<bar> / 2 ^ 52)"
    using ux by simp
  also have "\<dots> = \<bar>x\<bar> / 2 ^ 53" by simp
  finally show ?thesis .
qed


lemma avg_round_close:
  fixes S N :: int
  assumes N: "0 < N" "N < 2 ^ 46" and S: "N \<le> S" "S \<le> 5 * N"
  defines "q \<equiv> (of_int S / of_int N :: rat)"
  shows "to_double q \<noteq> 0"
    and "\<exists>k. py_round1 (to_double q) = to_double (of_int k / 10)
           \<and> \<bar>of_int k / 10 - q\<bar> \<le> 1 / 20"
proof -
  have Nr: "(0::rat) < of_int N" using N(1) by simp
  have s1: "(of_int N :: rat) \<le> of_int S" using S(1) by (simp only: of_int_le_iff)
  have "(of_int S :: rat) \<le> of_int (5 * N)" using S(2) by (simp only: of_int_le_iff)
  then have s5: "(of_int S :: rat) \<le> 5 * of_int N" by simp
  have q1: "1 \<le> q" using s1 Nr by (simp add: q_def le_divide_eq)
  have q5: "q \<le> 5" using s5 Nr by (simp add: q_def divide_le_eq)
  have q0: "q \<noteq> 0" using q1 by auto
  let ?x = "to_double q"
  have "\<bar>?x - q\<bar> \<le> \<bar>q\<bar> / 2 ^ 53" by (rule to_double_error [OF q0])
  also have "\<dots> \<le> 5 / 2 ^ 53" using q1 q5 by (simp add: divide_right_mono)
  finally have e1: "\<bar>?x - q\<bar> \<le> 5 / 2 ^ 53" .
  show "?x \<noteq> 0" using e1 q1 by (auto simp: abs_le_iff)
  define k where "k = round_half_even (?x * 10)"
  have e2: "\<bar>of_int k - ?x * 10\<bar> \<le> 1 / 2"
    unfolding k_def by (rule round_half_even_error)
  have "of_int k - 10 * q = (of_int k - ?x * 10) + 10 * (?x - q)" by simp
  then have "\<bar>of_int k - 10 * q\<bar> \<le> \<bar>of_int k - ?x * 10\<bar> + \<bar>10 * (?x - q)\<bar>"
    by (simp only: abs_triangle_ineq)
  also have "\<bar>10 * (?x - q)\<bar> = 10 * \<bar>?x - q\<bar>" by (simp only: abs_mult abs_numeral)
  finally have tri: "\<bar>of_int k - 10 * q\<bar> \<le> \<bar>of_int k - ?x * 10\<bar> + 10 * \<bar>?x - q\<bar>" .
  have e1': "10 * \<bar>?x - q\<bar> \<le> 50 / 2 ^ 53" using e1 by simp
  have e3: "\<bar>of_int k - 10 * q\<bar> \<le> 1 / 2 + 50 / 2 ^ 53"
    using tri e1' e2 by linarith
  have id: "(of_int (2 * N * k - 20 * S) :: rat) = 2 * of_int N * (of_int k - 10 * q)"
    using Nr by (simp add: q_def field_simps)
  have "\<bar>(of_int (2 * N * k - 20 * S) :: rat)\<bar> = 2 * of_int N * \<bar>of_int k - 10 * q\<bar>"
    unfolding id using Nr by (simp add: abs_mult)
  also have "\<dots> \<le> 2 * of_int N * (1 / 2 + 50 / 2 ^ 53)"
    using e3 Nr by (intro mult_left_mono) simp_all
  also have "\<dots> = of_int N + of_int N * (100 / 2 ^ 53)" by (simp add: algebra_simps)
  also have "\<dots> < of_int N + 1"
  proof -
    have "(of_int N :: rat) < of_int (2 ^ 46)" using N(2) by (simp only: of_int_less_iff)
    then have "(of_int N :: rat) < 2 ^ 46" by simp
    then have "(of_int N :: rat) * (100 / 2 ^ 53) < 2 ^ 46 * (100 / 2 ^ 53)"
      by (intro mult_strict_right_mono) simp_all
    also have "\<dots> < (1::rat)" by simp
    finally show ?thesis by simp
  qed
  finally have "\<bar>(of_int (2 * N * k - 20 * S) :: rat)\<bar> < of_int (N + 1)" by simp
  then have "(of_int \<bar>2 * N * k - 20 * S\<bar> :: rat) < of_int (N + 1)" by simp
  then have "\<bar>2 * N * k - 20 * S\<bar> < N + 1" by (simp only: of_int_less_iff)
  then have "\<bar>2 * N * k - 20 * S\<bar> \<le> N" by simp
  then have "(of_int \<bar>2 * N * k - 20 * S\<bar> :: rat) \<le> of_int N" by (simp only: of_int_le_iff)
  then have "\<bar>(of_int (2 * N * k - 20 * S) :: rat)\<bar> \<le> of_int N" by simp
  then have "2 * of_int N * \<bar>of_int k - 10 * q\<bar> \<le> (of_int N :: rat)"
    unfolding id using Nr by (simp add: abs_mult)
  then have "\<bar>of_int k - 10 * q\<bar> \<le> 1 / 2" using Nr by (simp add: field_simps)
  then have "\<bar>of_int k / 10 - q\<bar> \<le> 1 / 20" by (simp add: abs_le_iff field_simps)
  moreover have "py_round1 ?x = to_double (of_int k / 10)"
    by (simp add: py_round1_def k_def)
  ultimately show "\<exists>k. py_round1 ?x = to_double (of_int k / 10)
           \<and> \<bar>of_int k / 10 - q\<bar> \<le> 1 / 20" by blast
qed

lemma sum_ratings_bounds:
  "\<forall>r \<in> set rs. 1 \<le> r_rating r \<and> r_rating r \<le> 5 \<Longrightarrow>
   int (length rs) \<le> sum_list (map r_rating rs) \<and> sum_list (map r_rating rs) \<le> 5 * int (length rs)"
  by (induction rs) auto


lemma to_double_5: "to_double 5 = 5"
  by code_simp

lemma py_round1_5: "py_round1 5 = 5"
  by code_simp

lemma sql_avg_one_5: "sql_avg [5] = Some 5"
  by code_simp

text \<open>
  C5: for an existing movie in a store whose reviews are well-formed (the invariant of
  all reachable stores), with fewer than \<open>2^46\<close> reviews of that movie, the detail
  page shows the movie, exactly its reviews in descending order of timestamp, and as
  average: the sentinel when the movie has no review; otherwise the double nearest to
  a one-decimal number \<open>k / 10\<close> that lies within \<open>1 / 20\<close> of the exact average of
  the ratings, that is, the average rounded to one decimal place. For a movie with the
  single review of rating 5 the average shown is 5 and the list is that review.
\<close>

theorem movie_detail_average:
  assumes mv: "get_movie s mid = Some mv"
    and ok: "reviews_ok s"
    and few: "length (filter (\<lambda>r. r_movie_id r = mid) (review_tbl s)) < 2 ^ 46"
  shows "let rs = filter (\<lambda>r. r_movie_id r = mid) (review_tbl s)
         in \<exists>a revs. movie_detail s c mid =
                out s c []
                  (Movie_detail_page mv
                     (case current_user s c of None \<Rightarrow> False
                      | Some cu \<Rightarrow> on_watchlist s (u_id cu) mid)
                     a revs)
              \<and> mset revs = mset rs
              \<and> sorted (rev (map r_timestamp revs))
              \<and> (rs = [] \<longrightarrow> a = NA)
              \<and> (rs \<noteq> [] \<longrightarrow>
                   (\<exists>k. a = Avg (to_double (of_int k / 10))
                      \<and> \<bar>(of_int k / 10 :: rat)
                          - of_int (sum_list (map r_rating rs)) / of_nat (length rs)\<bar> \<le> 1 / 20))
              \<and> (\<forall>x. rs = [x] \<and> r_rating x = 5 \<longrightarrow> a = Avg 5 \<and> revs = [x])"
proof -
  let ?rs = "filter (\<lambda>r. r_movie_id r = mid) (review_tbl s)"
  let ?revs = "order_by_desc r_timestamp (order_by_desc r_id ?rs)"
  let ?a = "case sql_avg (map r_rating ?rs) of
              None \<Rightarrow> NA | Some a \<Rightarrow> if a = 0 then NA else Avg (py_round1 a)"
  have md: "movie_detail s c mid =
      out s c []
        (Movie_detail_page mv
           (case current_user s c of None \<Rightarrow> False | Some cu \<Rightarrow> on_watchlist s (u_id cu) mid)
           ?a ?revs)"
    by (simp add: movie_detail_def mv Let_def)
  have ms: "mset ?revs = mset ?rs"
    by (simp only: mset_order_by_desc)
  have so: "sorted (rev (map r_timestamp ?revs))"
    by (rule sorted_order_by_desc)
  have e: "?rs = [] \<longrightarrow> ?a = NA" by (simp add: sql_avg_def)
  have ne: "?rs \<noteq> [] \<longrightarrow>
       (\<exists>k. ?a = Avg (to_double (of_int k / 10))
          \<and> \<bar>(of_int k / 10 :: rat) - of_int (sum_list (map r_rating ?rs)) / of_nat (length ?rs)\<bar> \<le> 1 / 20)"
  proof
    assume n0: "?rs \<noteq> []"
    let ?N = "int (length ?rs)" and ?S = "sum_list (map r_rating ?rs)"
    have N0: "0 < ?N" using n0 by simp
    have "?N < int (2 ^ 46)" using few by (simp only: of_nat_less_iff)
    then have N1: "?N < 2 ^ 46" by simp
    have "\<forall>r \<in> set ?rs. 1 \<le> r_rating r \<and> r_rating r \<le> 5"
      using ok by (simp add: reviews_ok_def)
    then have S: "?N \<le> ?S" "?S \<le> 5 * ?N" using sum_ratings_bounds [of ?rs] by simp_all
    note c = avg_round_close [OF N0 N1 S]
    have sa: "sql_avg (map r_rating ?rs) = Some (to_double (of_int ?S / of_int ?N))"
      using n0 by (simp add: sql_avg_def)
    have "?a = Avg (py_round1 (to_double (of_int ?S / of_int ?N)))"
      unfolding sa using c(1) by simp
    then show "\<exists>k. ?a = Avg (to_double (of_int k / 10))
          \<and> \<bar>(of_int k / 10 :: rat) - of_int ?S / of_nat (length ?rs)\<bar> \<le> 1 / 20"
      using c(2) by auto
  qed
  have one: "\<forall>x. ?rs = [x] \<and> r_rating x = 5 \<longrightarrow> ?a = Avg 5 \<and> ?revs = [x]"
  proof (intro allI impI)
    fix x assume x: "?rs = [x] \<and> r_rating x = 5"
    then have "map r_rating ?rs = [5]" by simp
    then have "?a = Avg 5" by (simp only: sql_avg_one_5) (simp add: py_round1_5)
    moreover have "?revs = [x]"
      using x by (simp add: order_by_desc_def)
    ultimately show "?a = Avg 5 \<and> ?revs = [x]" by simp
  qed
  show ?thesis unfolding Let_def using md ms so e ne one by blast
qed

lemma py_int_five: "py_int 4300 ''5'' = Some 5"
  by (simp add: py_int_def is_space_def is_digit_def digit_val_def)

lemma demo_reviewed_eq:
  "demo_reviewed =
     demo_store\<lparr>review_tbl :=
       [\<lparr>r_id = 1, r_text = ''Stunning'', r_rating = 5, r_timestamp = 10, r_user_id = 1,
         r_movie_id = 1\<rparr>]\<rparr>"
proof -
  have cu: "current_user demo_store (Some 1) =
      Some \<lparr>u_id = 1, u_username = ''admin'', u_email = ''admin@flix.com'',
            u_password_hash = Hashed 0 ''password123''\<rparr>"
    by (simp add: current_user_def load_user_def demo_store_def)
  have f: "find (\<lambda>x. r_user_id x = 1 \<and> r_movie_id x = 1) (review_tbl demo_store) = None"
    and n: "next_id (map r_id (review_tbl demo_store)) = 1"
    by (simp_all add: demo_store_def next_id_def)
  show ?thesis
    unfolding demo_reviewed_def
    using submit_review_valid [OF cu get_movie_demo py_int_five, of "''Stunning''" 10] f n
    by (simp add: out_def demo_store_def)
qed

theorem movie_detail_average_witness:
  "movie_detail demo_reviewed None 1 =
     out demo_reviewed None []
       (Movie_detail_page demo_movie False (Avg 5)
          [\<lparr>r_id = 1, r_text = ''Stunning'', r_rating = 5, r_timestamp = 10, r_user_id = 1,
            r_movie_id = 1\<rparr>])"
proof -
  let ?r = "\<lparr>r_id = 1, r_text = ''Stunning'', r_rating = 5, r_timestamp = 10, r_user_id = 1,
             r_movie_id = 1\<rparr>"
  have mv: "get_movie demo_reviewed 1 = Some demo_movie"
    by (simp add: demo_reviewed_eq get_movie_def demo_store_def demo_movie_def)
  have ok: "reviews_ok demo_reviewed"
    by (simp add: demo_reviewed_eq reviews_ok_def)
  have rs: "filter (\<lambda>r. r_movie_id r = 1) (review_tbl demo_reviewed) = [?r]"
    by (simp add: demo_reviewed_eq)
  have few: "length (filter (\<lambda>r. r_movie_id r = 1) (review_tbl demo_reviewed)) < 2 ^ 46"
    unfolding rs by simp
  have cu: "current_user demo_reviewed None = None" by (simp add: current_user_def)
  show ?thesis
    using movie_detail_average [OF mv ok few, of None]
    unfolding Let_def rs cu by auto
qed

end
